theory Spec2Isabelle
  imports Main "HOL-Library.Word"
begin

section \<open>The QUIC transport server endpoint (quic_transport_owt_server_impl.cc)\<close>

text \<open>
  The endpoint lives on one I/O thread and talks to three collaborators that are not
  part of the repository: the UDP socket, the protocol Dispatcher and the clock. The
  model keeps the member variables of \<^verbatim>\<open>QuicTransportOWTServerImpl\<close> in a record,
  writes every call into a collaborator as an event of a call history, and takes what a
  collaborator answers from an environment that sees the history so far. A smart
  pointer is an \<open>option\<close> (\<open>None\<close> is the null pointer); calling through a null pointer
  is the error \<open>NullDereference\<close>.
\<close>

subsection \<open>Data\<close>

datatype ip_address = IPAddress (bytes: "nat list")

definition IPv6AllZeros :: ip_address where
  "IPv6AllZeros = IPAddress (replicate 16 0)"

text \<open>\<^verbatim>\<open>net::IPEndPoint(address, port)\<close>: the port is a \<^verbatim>\<open>uint16_t\<close>.\<close>

datatype ip_endpoint = IPEndPoint (address: ip_address) (endpoint_port: "16 word")

text \<open>A default-constructed \<^verbatim>\<open>IPEndPoint\<close>: the empty address, port 0.\<close>

definition IPEndPoint_default :: ip_endpoint where
  "IPEndPoint_default = IPEndPoint (IPAddress []) 0"

text \<open>
  \<^verbatim>\<open>quic::QuicReceivedPacket(buffer, length, receipt_time, owns_buffer)\<close>. The bytes
  of the shared read buffer are whatever the socket left there and are not modelled.
\<close>

datatype received_packet =
  QuicReceivedPacket (packet_length: int) (receipt_time: nat) (owns_buffer: bool)

text \<open>Every call the endpoint makes into a collaborator, in program order.\<close>

datatype event =
    Socket_new
  | Socket_AllowAddressReuse
  | Socket_Listen ip_endpoint
  | Socket_SetReceiveBufferSize int
  | Socket_SetSendBufferSize int
  | Socket_GetLocalAddress
  | Socket_RecvFrom
  | Socket_Close
  | Socket_delete
  | Dispatcher_new
  | PacketWriter_new
  | Dispatcher_InitializeWithWriter
  | Dispatcher_ProcessBufferedChlos nat
  | Dispatcher_HasChlosBuffered
  | Dispatcher_ProcessPacket ip_endpoint ip_endpoint received_packet
  | Dispatcher_Shutdown
  | Dispatcher_delete
  | Clock_Now
  | CryptoConfig_AddDefaultConfig
  | LOG_ERROR string int

text \<open>The closures the endpoint posts to the I/O thread's task runner.\<close>

datatype task =
    Task_StartOnCurrentThread
  | Task_StartReading
  | Task_OnReadComplete int

text \<open>
  The socket object. Its only state the endpoint depends on is the number of receive
  operations it has accepted and not yet completed: \<^verbatim>\<open>RecvFrom\<close> returning
  \<^verbatim>\<open>ERR_IO_PENDING\<close> leaves one outstanding until the socket runs the callback.
\<close>

record udp_server_socket =
  receives_in_flight :: nat

datatype packet_writer = QuicSimpleServerPacketWriter

record owt_dispatcher =
  writer :: "packet_writer option"

record quic_config =
  InitialStreamFlowControlWindowToSend :: nat
  InitialSessionFlowControlWindowToSend :: nat

text \<open>
  Constants the two source files use and other headers declare (net_errors.h,
  quic_constants.h). They are parameters of the model; \<open>chromium_constants\<close> below
  gives the values of the Chromium tree the files were written against.
\<close>

record constants =
  OK :: int
  ERR_IO_PENDING :: int
  ERR_CONNECTION_CLOSED :: int
  kMaxIncomingPacketSize :: int
  kDefaultSocketReceiveBuffer :: int
  kMinimumFlowControlSendWindow :: nat

text \<open>
  What the collaborators answer. Each answer may depend on every call made so far.
  An out-parameter is a function from the old value of the variable to the value the
  callee leaves there.
\<close>

record env =
  Listen_rc :: "event list \<Rightarrow> int"
  SetReceiveBufferSize_rc :: "event list \<Rightarrow> int"
  SetSendBufferSize_rc :: "event list \<Rightarrow> int"
  GetLocalAddress_rc :: "event list \<Rightarrow> int"
  GetLocalAddress_out :: "event list \<Rightarrow> ip_endpoint \<Rightarrow> ip_endpoint"
  RecvFrom_rc :: "event list \<Rightarrow> int"
  RecvFrom_out :: "event list \<Rightarrow> ip_endpoint \<Rightarrow> ip_endpoint"
  HasChlosBuffered_ret :: "event list \<Rightarrow> bool"
  Now_ret :: "event list \<Rightarrow> nat"

text \<open>
  The endpoint: the members of the class the two files read or write (the source
  writes each with a trailing underscore, \<^verbatim>\<open>socket_\<close>, which Isabelle reserves),
  then the task queue of the I/O thread and the call history.
\<close>

record server =
  port :: int
  config :: quic_config
  server_address :: ip_endpoint
  client_address :: ip_endpoint
  socket :: "udp_server_socket option"
  dispatcher :: "owt_dispatcher option"
  read_pending :: bool
  synchronous_read_count :: int
  task_queue :: "task list"
  history :: "event list"

datatype error = NullDereference | CheckFailure

definition kNumSessionsToCreatePerSocketEvent :: nat where
  "kNumSessionsToCreatePerSocketEvent = 16"

definition emit :: "event \<Rightarrow> server \<Rightarrow> server" where
  "emit e s = s\<lparr>history := history s @ [e]\<rparr>"

definition PostTask :: "task \<Rightarrow> server \<Rightarrow> server" where
  "PostTask t s = s\<lparr>task_queue := task_queue s @ [t]\<rparr>"

subsection \<open>Stop\<close>

text \<open>
  \<^verbatim>\<open>dispatcher_->Shutdown()\<close> comes first and is not guarded; the socket is closed
  and released only when one is held. Closing the socket drops its outstanding receive.
\<close>

definition Stop :: "server \<Rightarrow> error + server" where
  "Stop s =
     (case dispatcher s of
        None \<Rightarrow> Inl NullDereference
      | Some d \<Rightarrow>
          let s1 = emit Dispatcher_Shutdown s in
          (case socket s1 of
             None \<Rightarrow> Inr s1
           | Some sock \<Rightarrow> Inr ((emit Socket_delete (emit Socket_Close s1))\<lparr>socket := None\<rparr>)))"

subsection \<open>The receive loop\<close>

function StartReading :: "constants \<Rightarrow> env \<Rightarrow> server \<Rightarrow> error + server"
  and OnReadComplete :: "constants \<Rightarrow> env \<Rightarrow> int \<Rightarrow> server \<Rightarrow> error + server"
where
  "StartReading K E s =
     (if synchronous_read_count s = 0 \<and> dispatcher s = None then Inl NullDereference
      else
        let s1 = (if synchronous_read_count s = 0
                  then emit (Dispatcher_ProcessBufferedChlos kNumSessionsToCreatePerSocketEvent) s
                  else s)
        in
        if read_pending s1 then Inr s1
        else
          (case socket s1 of
             None \<Rightarrow> Inl NullDereference
           | Some sock \<Rightarrow>
               let s2 = s1\<lparr>read_pending := True\<rparr>;
                   result = RecvFrom_rc E (history s2);
                   s3 = (emit Socket_RecvFrom s2)
                          \<lparr>client_address := RecvFrom_out E (history s2) (client_address s2)\<rparr>
               in
               if result = ERR_IO_PENDING K then
                 let s4 = s3\<lparr>synchronous_read_count := 0,
                             socket := Some (sock\<lparr>receives_in_flight := receives_in_flight sock + 1\<rparr>)\<rparr>
                 in
                 (case dispatcher s4 of
                    None \<Rightarrow> Inl NullDereference
                  | Some d \<Rightarrow>
                      if HasChlosBuffered_ret E (history s4)
                      then Inr (PostTask Task_StartReading (emit Dispatcher_HasChlosBuffered s4))
                      else Inr (emit Dispatcher_HasChlosBuffered s4))
               else
                 let s4 = s3\<lparr>synchronous_read_count := synchronous_read_count s3 + 1\<rparr> in
                 if synchronous_read_count s4 > 32
                 then Inr (PostTask (Task_OnReadComplete result) (s4\<lparr>synchronous_read_count := 0\<rparr>))
                 else OnReadComplete K E result s4))"
| "OnReadComplete K E result s =
     (let s1 = s\<lparr>read_pending := False\<rparr>;
          result' = (if result = 0 then ERR_CONNECTION_CLOSED K else result)
      in
      if result' < 0
      then Stop (emit (LOG_ERROR ''QuicRawServer read failed: '' result') s1)
      else
        (case dispatcher s1 of
           None \<Rightarrow> Inl NullDereference
         | Some d \<Rightarrow>
             let now = Now_ret E (history s1);
                 s2 = emit Clock_Now s1;
                 packet = QuicReceivedPacket result' now False;
                 s3 = emit (Dispatcher_ProcessPacket (server_address s2) (client_address s2) packet) s2
             in StartReading K E s3))"
  by pat_completeness auto
termination
  by (relation "measure (\<lambda>x. case x of
        Inl (K, E, s) \<Rightarrow> 2 * nat (33 - synchronous_read_count s) + 1
      | Inr (K, E, r, s) \<Rightarrow> 2 * nat (33 - synchronous_read_count s) + 2)")
     (auto simp: emit_def)

text \<open>The two equations are unfolded by hand, one call at a time.\<close>

declare StartReading.simps [simp del] OnReadComplete.simps [simp del]

subsection \<open>Construction, Start and StartOnCurrentThread\<close>

text \<open>
  \<^verbatim>\<open>Initialize()\<close>: a flow control window still at the library's minimum is raised
  to 64 KB (stream) or 1 MB (session); then the default crypto config is added.
\<close>

definition Initialize :: "constants \<Rightarrow> server \<Rightarrow> server" where
  "Initialize K s =
     (let kInitialSessionFlowControlWindow = 1 * 1024 * 1024;
          kInitialStreamFlowControlWindow = 64 * 1024;
          c0 = config s;
          c1 = (if InitialStreamFlowControlWindowToSend c0 = kMinimumFlowControlSendWindow K
                then c0\<lparr>InitialStreamFlowControlWindowToSend := kInitialStreamFlowControlWindow\<rparr>
                else c0);
          c2 = (if InitialSessionFlowControlWindowToSend c1 = kMinimumFlowControlSendWindow K
                then c1\<lparr>InitialSessionFlowControlWindowToSend := kInitialSessionFlowControlWindow\<rparr>
                else c1)
      in emit CryptoConfig_AddDefaultConfig (s\<lparr>config := c2\<rparr>))"

text \<open>
  The constructor. \<^verbatim>\<open>socket_\<close> and \<^verbatim>\<open>dispatcher_\<close> are not in the initialiser
  list: both smart pointers start null. The task queue holds the tasks of this endpoint.
\<close>

definition QuicTransportOWTServerImpl :: "constants \<Rightarrow> int \<Rightarrow> quic_config \<Rightarrow> server" where
  "QuicTransportOWTServerImpl K p cfg =
     Initialize K
       \<lparr>port = p, config = cfg,
        server_address = IPEndPoint_default, client_address = IPEndPoint_default,
        socket = None, dispatcher = None,
        read_pending = False, synchronous_read_count = 0,
        task_queue = [], history = []\<rparr>"

text \<open>\<^verbatim>\<open>Start()\<close> posts and returns \<^verbatim>\<open>true\<close>, which its return type \<^verbatim>\<open>int\<close> reads as 1.\<close>

definition Start :: "server \<Rightarrow> int \<times> server" where
  "Start s = (1, PostTask Task_StartOnCurrentThread s)"

text \<open>
  The two buffer sizes reach the socket as \<^verbatim>\<open>int32_t\<close>: the receive size by the
  \<^verbatim>\<open>static_cast\<close> of line 125, the send size by the parameter type of
  \<^verbatim>\<open>SetSendBufferSize\<close>.
\<close>

definition int32 :: "int \<Rightarrow> int" where
  "int32 x = sint (word_of_int x :: 32 word)"

definition log_if_failed :: "string \<Rightarrow> int \<Rightarrow> server \<Rightarrow> server" where
  "log_if_failed what rc s = (if rc < 0 then emit (LOG_ERROR what rc) s else s)"

text \<open>The events \<open>log_if_failed\<close> adds to the history.\<close>

definition failure_log :: "string \<Rightarrow> int \<Rightarrow> event list" where
  "failure_log what rc = (if rc < 0 then [LOG_ERROR what rc] else [])"

text \<open>
  The state in which \<^verbatim>\<open>StartOnCurrentThread\<close> calls \<^verbatim>\<open>StartReading()\<close>: lines 109
  to 152 of the source, one binding per statement. No return code is branched on
  except to log it. \<^verbatim>\<open>net::IPEndPoint(ip, port_)\<close> narrows the \<^verbatim>\<open>int\<close> member
  \<^verbatim>\<open>port_\<close> to \<^verbatim>\<open>uint16_t\<close>.
\<close>

definition StartOnCurrentThread_setup :: "constants \<Rightarrow> env \<Rightarrow> server \<Rightarrow> server" where
  "StartOnCurrentThread_setup K E s =
     (let ip = IPv6AllZeros;
          new_socket = \<lparr>receives_in_flight = 0\<rparr>;
          s1 = emit Socket_AllowAddressReuse (emit Socket_new s);
          rc = Listen_rc E (history s1);
          s2 = log_if_failed ''Listen() failed: '' rc 
                 (emit (Socket_Listen (IPEndPoint ip (word_of_int (port s1)))) s1);
          rc = SetReceiveBufferSize_rc E (history s2);
          s3 = log_if_failed ''SetReceiveBufferSize() failed: '' rc
                 (emit (Socket_SetReceiveBufferSize (int32 (kDefaultSocketReceiveBuffer K))) s2);
          rc = SetSendBufferSize_rc E (history s3);
          s4 = log_if_failed ''SetSendBufferSize() failed: '' rc
                 (emit (Socket_SetSendBufferSize (int32 (320 * kMaxIncomingPacketSize K))) s3);
          rc = GetLocalAddress_rc E (history s4);
          s5 = log_if_failed ''GetLocalAddress() failed: '' rc
                 ((emit Socket_GetLocalAddress s4)
                    \<lparr>server_address := GetLocalAddress_out E (history s4) (server_address s4)\<rparr>);
          s6 = s5\<lparr>socket := Some new_socket\<rparr>;
          s7 = emit Dispatcher_new s6;
          s8 = (case dispatcher s7 of None \<Rightarrow> s7 | Some d \<Rightarrow> emit Dispatcher_delete s7)
                 \<lparr>dispatcher := Some \<lparr>writer = None\<rparr>\<rparr>;
          s9 = emit PacketWriter_new s8
      in (emit Dispatcher_InitializeWithWriter s9)
           \<lparr>dispatcher := Some \<lparr>writer = Some QuicSimpleServerPacketWriter\<rparr>\<rparr>)"

text \<open>
  \<^verbatim>\<open>socket_.swap(socket)\<close> leaves the socket held before in the local variable, which
  deletes it when the function returns.
\<close>

definition StartOnCurrentThread :: "constants \<Rightarrow> env \<Rightarrow> server \<Rightarrow> error + server" where
  "StartOnCurrentThread K E s =
     (case StartReading K E (StartOnCurrentThread_setup K E s) of
        Inl e \<Rightarrow> Inl e
      | Inr s' \<Rightarrow> Inr (case socket s of None \<Rightarrow> s' | Some old \<Rightarrow> emit Socket_delete s'))"

subsection \<open>The lifecycle the specification names\<close>

text \<open>
  The code has no lifecycle variable. The three states of the specification are read
  off the two smart pointers: nothing built yet, a socket held, or a Dispatcher built
  and no socket held.
\<close>

datatype lifecycle = Created | Started | Stopped

definition lifecycle_of :: "server \<Rightarrow> lifecycle" where
  "lifecycle_of s =
     (case socket s of
        Some sock \<Rightarrow> Started
      | None \<Rightarrow> (case dispatcher s of None \<Rightarrow> Created | Some d \<Rightarrow> Stopped))"

definition socket_releases :: "server \<Rightarrow> nat" where
  "socket_releases s = count_list (history s) Socket_delete"

text \<open>The values of the constants in the Chromium tree (net_error_list.h, quic_constants.h).\<close>

definition chromium_constants :: constants where
  "chromium_constants =
     \<lparr>OK = 0, ERR_IO_PENDING = - 1, ERR_CONNECTION_CLOSED = - 100,
      kMaxIncomingPacketSize = 1472, kDefaultSocketReceiveBuffer = 1024 * 1024,
      kMinimumFlowControlSendWindow = 16 * 1024\<rparr>"

subsection \<open>Names for the steps of the receive loop\<close>

text \<open>
  The events of step 1 of \<^verbatim>\<open>StartReading\<close> (lines 183 to 186), the state in which
  \<^verbatim>\<open>RecvFrom\<close> has returned (lines 191 to 195), and the result as
  \<^verbatim>\<open>OnReadComplete\<close> reads it after lines 222 and 223.
\<close>

definition step1_events :: "server \<Rightarrow> event list" where
  "step1_events s =
     (if synchronous_read_count s = 0
      then [Dispatcher_ProcessBufferedChlos kNumSessionsToCreatePerSocketEvent] else [])"

definition after_RecvFrom :: "env \<Rightarrow> server \<Rightarrow> server" where
  "after_RecvFrom E s =
     s\<lparr>read_pending := True,
       history := history s @ step1_events s @ [Socket_RecvFrom],
       client_address := RecvFrom_out E (history s @ step1_events s) (client_address s)\<rparr>"

definition read_result :: "constants \<Rightarrow> int \<Rightarrow> int" where
  "read_result K r = (if r = 0 then ERR_CONNECTION_CLOSED K else r)"

text \<open>The state \<^verbatim>\<open>Stop()\<close> leaves, and the state a failed read leaves (lines 221 to 228).\<close>

definition after_Stop :: "server \<Rightarrow> server" where
  "after_Stop s =
     s\<lparr>socket := None,
       history := history s @ Dispatcher_Shutdown #
         (case socket s of None \<Rightarrow> [] | Some sock \<Rightarrow> [Socket_Close, Socket_delete])\<rparr>"

definition after_read_error :: "constants \<Rightarrow> int \<Rightarrow> server \<Rightarrow> server" where
  "after_read_error K r s =
     after_Stop (s\<lparr>read_pending := False,
                   history := history s @
                     [LOG_ERROR ''QuicRawServer read failed: '' (read_result K r)]\<rparr>)"

definition in_flight :: "server \<Rightarrow> nat" where
  "in_flight s = (case socket s of None \<Rightarrow> 0 | Some sock \<Rightarrow> receives_in_flight sock)"

subsection \<open>The endpoint on its I/O thread\<close>

text \<open>
  What can happen to an endpoint after its construction: \<^verbatim>\<open>Start()\<close> or
  \<^verbatim>\<open>Stop()\<close> is called, the I/O thread runs the task at the head of its queue, or
  the socket completes the outstanding receive and runs the callback it was given,
  \<^verbatim>\<open>OnReadComplete\<close>, with the result and the peer address.
\<close>

definition run_task :: "constants \<Rightarrow> env \<Rightarrow> task \<Rightarrow> server \<Rightarrow> error + server" where
  "run_task K E t s =
     (case t of
        Task_StartOnCurrentThread \<Rightarrow> StartOnCurrentThread K E s
      | Task_StartReading \<Rightarrow> StartReading K E s
      | Task_OnReadComplete r \<Rightarrow> OnReadComplete K E r s)"

inductive reachable :: "constants \<Rightarrow> env \<Rightarrow> server \<Rightarrow> bool" for K E where
  constructed: "reachable K E (QuicTransportOWTServerImpl K p cfg)"
| Start_called: "reachable K E s \<Longrightarrow> reachable K E (snd (Start s))"
| Stop_called: "reachable K E s \<Longrightarrow> Stop s = Inr s' \<Longrightarrow> reachable K E s'"
| task_run:
    "reachable K E s \<Longrightarrow> task_queue s = t # q \<Longrightarrow>
     run_task K E t (s\<lparr>task_queue := q\<rparr>) = Inr s' \<Longrightarrow> reachable K E s'"
| receive_completed:
    "reachable K E s \<Longrightarrow> socket s = Some sock \<Longrightarrow> 0 < receives_in_flight sock \<Longrightarrow>
     OnReadComplete K E r
       (s\<lparr>socket := Some (sock\<lparr>receives_in_flight := receives_in_flight sock - 1\<rparr>),
          client_address := a\<rparr>) = Inr s' \<Longrightarrow>
     reachable K E s'"

section \<open>The factory (quic_transport_factory_impl.cc)\<close>

subsection \<open>Collaborators\<close>

text \<open>
  \<^verbatim>\<open>ProofSourceChromium::Initialize\<close>, the default \<^verbatim>\<open>QuicConfig\<close>,
  \<^verbatim>\<open>QuicIpAddress::FromString\<close> and \<^verbatim>\<open>SynchronousHostResolver::Resolve\<close> (its
  status and the address list it fills) belong to other libraries.
\<close>

record factory_env =
  ProofSource_Initialize :: "string \<Rightarrow> string \<Rightarrow> bool"
  QuicConfig_default :: quic_config
  QuicIpAddress_FromString :: "string \<Rightarrow> ip_address option"
  SynchronousHostResolver_Resolve :: "string \<Rightarrow> int \<times> ip_address list"

text \<open>
  The part of \<^verbatim>\<open>GURL\<close> the factory uses: the host and the effective port of a URL
  of the form scheme://host[:port][/...]. The effective port is the written port, or
  the scheme's default, or \<^verbatim>\<open>PORT_UNSPECIFIED\<close> (-1).
\<close>

definition url_scheme :: "string \<Rightarrow> string" where
  "url_scheme u = takeWhile (\<lambda>c. c \<noteq> CHR '':'') u"

definition url_authority :: "string \<Rightarrow> string" where
  "url_authority u =
     takeWhile (\<lambda>c. c \<noteq> CHR ''/'' \<and> c \<noteq> CHR ''?'' \<and> c \<noteq> CHR ''#'')
       (drop 3 (dropWhile (\<lambda>c. c \<noteq> CHR '':'') u))"

definition url_host :: "string \<Rightarrow> string" where
  "url_host u = takeWhile (\<lambda>c. c \<noteq> CHR '':'') (url_authority u)"

definition url_port_digits :: "string \<Rightarrow> string" where
  "url_port_digits u = drop 1 (dropWhile (\<lambda>c. c \<noteq> CHR '':'') (url_authority u))"

definition DefaultPortForScheme :: "string \<Rightarrow> int" where
  "DefaultPortForScheme sch =
     (if sch = ''http'' \<or> sch = ''ws'' then 80
      else if sch = ''https'' \<or> sch = ''wss'' then 443
      else if sch = ''ftp'' then 21
      else - 1)"

definition EffectiveIntPort :: "string \<Rightarrow> int" where
  "EffectiveIntPort u =
     (if url_port_digits u = [] then DefaultPortForScheme (url_scheme u)
      else foldl (\<lambda>n c. 10 * n + (of_char c - 48)) 0 (url_port_digits u))"

subsection \<open>CreateQuicTransportServer\<close>

text \<open>\<^verbatim>\<open>CHECK(proof_source->Initialize(...))\<close> aborts the process when it is false.\<close>

definition CreateQuicTransportServer ::
  "constants \<Rightarrow> factory_env \<Rightarrow> int \<Rightarrow> string \<Rightarrow> string \<Rightarrow> error + server" where
  "CreateQuicTransportServer K F p cert_file key_file =
     (if \<not> ProofSource_Initialize F cert_file key_file then Inl CheckFailure
      else Inr (QuicTransportOWTServerImpl K p (QuicConfig_default F)))"

subsection \<open>CreateQuicTransportClient\<close>

datatype quic_socket_address = QuicSocketAddress (host_address: ip_address) (address_port: "16 word")

datatype privacy_mode = PRIVACY_MODE_DISABLED | PRIVACY_MODE_ENABLED

datatype quic_server_id =
  QuicServerId (id_host: string) (id_port: "16 word") (privacy_mode_enabled: bool)

text \<open>The client object, by the two constructor arguments that depend on the call.\<close>

datatype client =
  QuicTransportOWTClientImpl (peer_address: quic_socket_address) (server_id: quic_server_id)

datatype log_sink = LOG_ERROR_stream | std_cerr

datatype log_line = Unable_to_resolve log_sink string int

text \<open>
  What the caller and the posted closure share: the result slot (\<open>None\<close> is
  \<^verbatim>\<open>nullptr\<close>), the waitable event, and what has been logged.
\<close>

record construction =
  result_slot :: "client option"
  signaled :: bool
  logged :: "log_line list"

datatype closure_error = IndexOutOfRange

text \<open>
  The closure that runs on the I/O thread (lines 179 to 210). The \<^verbatim>\<open>int\<close> port and
  the \<^verbatim>\<open>int\<close> effective port are narrowed to \<^verbatim>\<open>uint16_t\<close> by the two constructors;
  \<^verbatim>\<open>PRIVACY_MODE_DISABLED\<close> is 0 and converts to \<^verbatim>\<open>false\<close>.
\<close>

definition construct_client ::
  "constants \<Rightarrow> factory_env \<Rightarrow> string \<Rightarrow> int \<Rightarrow> ip_address \<Rightarrow> construction \<Rightarrow> construction" where
  "construct_client K F host p ip_addr c =
     (let url = ''https://www.example.org'';
          server_id = QuicServerId (url_host url) (word_of_int (EffectiveIntPort url))
                        (PRIVACY_MODE_DISABLED \<noteq> PRIVACY_MODE_DISABLED)
      in c\<lparr>result_slot :=
             Some (QuicTransportOWTClientImpl (QuicSocketAddress ip_addr (word_of_int p)) server_id),
           signaled := True\<rparr>)"

definition client_closure ::
  "constants \<Rightarrow> factory_env \<Rightarrow> string \<Rightarrow> int \<Rightarrow> construction \<Rightarrow> closure_error + construction" where
  "client_closure K F host p c =
     (case QuicIpAddress_FromString F host of
        Some ip_addr \<Rightarrow> Inr (construct_client K F host p ip_addr c)
      | None \<Rightarrow>
          (case SynchronousHostResolver_Resolve F host of
             (rv, addresses) \<Rightarrow>
               if rv \<noteq> OK K
               then Inr (c\<lparr>logged := logged c @
                           [Unable_to_resolve LOG_ERROR_stream host rv,
                            Unable_to_resolve std_cerr host rv]\<rparr>)
               else (case addresses of
                       [] \<Rightarrow> Inl IndexOutOfRange
                     | a # rest \<Rightarrow> Inr (construct_client K F host p a c))))"

text \<open>
  The caller posts the closure and waits on the event. Only the closure holds the
  event, so once the closure has returned without signalling, \<^verbatim>\<open>done.Wait()\<close> never
  returns.
\<close>

datatype call_outcome =
    Returns "client option" "log_line list"
  | Never_returns "log_line list"
  | Closure_fails closure_error

definition CreateQuicTransportClient ::
  "constants \<Rightarrow> factory_env \<Rightarrow> string \<Rightarrow> int \<Rightarrow> call_outcome" where
  "CreateQuicTransportClient K F host p =
     (case client_closure K F host p \<lparr>result_slot = None, signaled = False, logged = []\<rparr> of
        Inl e \<Rightarrow> Closure_fails e
      | Inr c \<Rightarrow> if signaled c then Returns (result_slot c) (logged c) else Never_returns (logged c))"

section \<open>The invariant and the inputs of the properties\<close>

subsection \<open>What the endpoint keeps true\<close>

text \<open>
  A receive is unhandled from the moment \<^verbatim>\<open>RecvFrom\<close> accepted it until
  \<^verbatim>\<open>OnReadComplete\<close> runs for it: it is in flight on the socket, or it completed at
  once and its handler waits in the task queue.
\<close>

fun is_completion :: "task \<Rightarrow> bool" where
  "is_completion (Task_OnReadComplete r) = True"
| "is_completion t = False"

fun is_ProcessPacket :: "event \<Rightarrow> bool" where
  "is_ProcessPacket (Dispatcher_ProcessPacket local peer packet) = True"
| "is_ProcessPacket e = False"

definition unhandled_receives :: "server \<Rightarrow> nat" where
  "unhandled_receives s = in_flight s + length (filter is_completion (task_queue s))"

definition endpoint_invariant :: "server \<Rightarrow> bool" where
  "endpoint_invariant s =
     (0 \<le> synchronous_read_count s \<and> synchronous_read_count s \<le> 32
      \<and> (unhandled_receives s = 0 \<or> unhandled_receives s = 1 \<and> read_pending s)
      \<and> (read_pending s \<longrightarrow> synchronous_read_count s = 0)
      \<and> (dispatcher s = None \<longrightarrow>
            synchronous_read_count s = 0 \<and> \<not> read_pending s \<and> socket s = None))"

subsection \<open>Inputs the closed theorems below are evaluated at\<close>

definition small_config :: quic_config where
  "small_config =
     \<lparr>InitialStreamFlowControlWindowToSend = 16 * 1024,
      InitialSessionFlowControlWindowToSend = 16 * 1024\<rparr>"

text \<open>A resolver that fails every lookup with \<^verbatim>\<open>ERR_NAME_NOT_RESOLVED\<close> (-105).\<close>

definition failing_resolver :: factory_env where
  "failing_resolver =
     \<lparr>ProofSource_Initialize = (\<lambda>cert_file key_file. True),
      QuicConfig_default = small_config,
      QuicIpAddress_FromString = (\<lambda>host. None),
      SynchronousHostResolver_Resolve = (\<lambda>host. (- 105, []))\<rparr>"


text \<open>
  A network whose socket calls all return \<open>rc\<close>, whose every \<^verbatim>\<open>RecvFrom\<close> returns
  \<open>received\<close> from the peer 192.0.2.7:50000, and whose Dispatcher answers \<open>buffered\<close>
  to \<^verbatim>\<open>HasChlosBuffered\<close>. The clock counts the calls made so far.
\<close>

definition network :: "int \<Rightarrow> int \<Rightarrow> bool \<Rightarrow> env" where
  "network rc received buffered =
     \<lparr>Listen_rc = (\<lambda>h. rc),
      SetReceiveBufferSize_rc = (\<lambda>h. rc),
      SetSendBufferSize_rc = (\<lambda>h. rc),
      GetLocalAddress_rc = (\<lambda>h. rc),
      GetLocalAddress_out = (\<lambda>h a. IPEndPoint IPv6AllZeros 4433),
      RecvFrom_rc = (\<lambda>h. received),
      RecvFrom_out = (\<lambda>h a. IPEndPoint (IPAddress [192, 0, 2, 7]) 50000),
      HasChlosBuffered_ret = (\<lambda>h. buffered),
      Now_ret = (\<lambda>h. length h)\<rparr>"

text \<open>
  An endpoint just constructed for port 4433, and the same endpoint in the state in
  which \<^verbatim>\<open>StartOnCurrentThread\<close> enters the receive loop.
\<close>

definition fresh_endpoint :: server where
  "fresh_endpoint = QuicTransportOWTServerImpl chromium_constants 4433 small_config"

definition listening_endpoint :: "env \<Rightarrow> server" where
  "listening_endpoint E = StartOnCurrentThread_setup chromium_constants E fresh_endpoint"

text \<open>The listening endpoint after its first receive has returned \<^verbatim>\<open>ERR_IO_PENDING\<close>.\<close>

definition waiting_endpoint :: "env \<Rightarrow> server" where
  "waiting_endpoint E =
     (after_RecvFrom E (listening_endpoint E))
       \<lparr>synchronous_read_count := 0,
        socket := Some \<lparr>receives_in_flight = 1\<rparr>,
        history := history (listening_endpoint E) @
          [Dispatcher_ProcessBufferedChlos 16, Socket_RecvFrom, Dispatcher_HasChlosBuffered]\<rparr>"

section \<open>Properties of the factory\<close>




lemma client_closure_resolution_failure:
  assumes "QuicIpAddress_FromString F host = None"
    and "SynchronousHostResolver_Resolve F host = (rv, addresses)"
    and "rv \<noteq> OK K"
  shows "client_closure K F host p c =
           Inr (c\<lparr>logged := logged c @ [Unable_to_resolve LOG_ERROR_stream host rv,
                                          Unable_to_resolve std_cerr host rv]\<rparr>)"
  using assms by (simp add: client_closure_def)

text \<open>
  Claim C1 says that \<^verbatim>\<open>CreateQuicTransportClient\<close>, given a host that is no IP
  literal and that does not resolve, logs the error, returns null to the caller and
  does not hang. The code logs the error (to both sinks) and then never returns: the
  closure leaves by the early \<^verbatim>\<open>return\<close> of line 196, before
  \<^verbatim>\<open>event->Signal()\<close>, and the caller stays in \<^verbatim>\<open>done.Wait()\<close>. The theorem
  evaluates the call for the host nonexistent.invalid, port 443 and a resolver that
  fails.
\<close>

theorem CreateQuicTransportClient_unresolved_host_never_returns:
  "CreateQuicTransportClient chromium_constants failing_resolver ''nonexistent.invalid'' 443 =
     Never_returns [Unable_to_resolve LOG_ERROR_stream ''nonexistent.invalid'' (- 105),
                    Unable_to_resolve std_cerr ''nonexistent.invalid'' (- 105)]"
  by (simp add: CreateQuicTransportClient_def failing_resolver_def chromium_constants_def
      client_closure_resolution_failure [where rv = "- 105" and addresses = "[]"])

text \<open>
  Claim C9: \<^verbatim>\<open>CreateQuicTransportServer\<close> check-fails exactly when the certificate
  and key cannot be loaded into the proof source; otherwise it returns the endpoint the
  constructor builds for the port, and that endpoint is not started: it is in the state
  Created, holds neither socket nor Dispatcher, has no receive pending, has posted no
  task and has made no call on a socket (its only call so far adds the default crypto
  config). Nothing runs until \<^verbatim>\<open>Start()\<close> posts the initialisation.
\<close>

theorem CreateQuicTransportServer_returns_unstarted_endpoint:
  "CreateQuicTransportServer K F p cert_file key_file =
     (if ProofSource_Initialize F cert_file key_file
      then Inr (QuicTransportOWTServerImpl K p (QuicConfig_default F))
      else Inl CheckFailure)
   \<and> port (QuicTransportOWTServerImpl K p cfg) = p
   \<and> lifecycle_of (QuicTransportOWTServerImpl K p cfg) = Created
   \<and> socket (QuicTransportOWTServerImpl K p cfg) = None
   \<and> dispatcher (QuicTransportOWTServerImpl K p cfg) = None
   \<and> read_pending (QuicTransportOWTServerImpl K p cfg) = False
   \<and> synchronous_read_count (QuicTransportOWTServerImpl K p cfg) = 0
   \<and> task_queue (QuicTransportOWTServerImpl K p cfg) = []
   \<and> history (QuicTransportOWTServerImpl K p cfg) = [CryptoConfig_AddDefaultConfig]
   \<and> task_queue (snd (Start (QuicTransportOWTServerImpl K p cfg))) = [Task_StartOnCurrentThread]
   \<and> history (snd (Start (QuicTransportOWTServerImpl K p cfg))) = [CryptoConfig_AddDefaultConfig]"
  by (simp add: CreateQuicTransportServer_def QuicTransportOWTServerImpl_def Initialize_def
      lifecycle_of_def emit_def Start_def PostTask_def Let_def)



section \<open>Properties of the server endpoint\<close>

subsection \<open>One equation per function, branch by branch\<close>

lemma StartReading_cases:
  "StartReading K E s =
     (if synchronous_read_count s = 0 \<and> dispatcher s = None then Inl NullDereference
      else if read_pending s then Inr (s\<lparr>history := history s @ step1_events s\<rparr>)
      else if socket s = None then Inl NullDereference
      else if RecvFrom_rc E (history s @ step1_events s) = ERR_IO_PENDING K then
        (if dispatcher s = None then Inl NullDereference
         else Inr ((after_RecvFrom E s)
                \<lparr>synchronous_read_count := 0,
                 socket := map_option (receives_in_flight_update Suc) (socket s),
                 task_queue := task_queue s @
                   (if HasChlosBuffered_ret E (history s @ step1_events s @ [Socket_RecvFrom])
                    then [Task_StartReading] else []),
                 history := history s @ step1_events s @
                   [Socket_RecvFrom, Dispatcher_HasChlosBuffered]\<rparr>))
      else if 32 < synchronous_read_count s + 1 then
        Inr ((after_RecvFrom E s)
               \<lparr>synchronous_read_count := 0,
                task_queue := task_queue s @
                  [Task_OnReadComplete (RecvFrom_rc E (history s @ step1_events s))]\<rparr>)
      else OnReadComplete K E (RecvFrom_rc E (history s @ step1_events s))
             ((after_RecvFrom E s)\<lparr>synchronous_read_count := synchronous_read_count s + 1\<rparr>))"
proof (cases "synchronous_read_count s = 0")
  case True
  then show ?thesis
    by (cases "socket s"; cases "dispatcher s")
       (simp_all add: StartReading.simps step1_events_def after_RecvFrom_def emit_def
          PostTask_def Let_def)
next
  case False
  then show ?thesis
    by (cases "socket s"; cases "dispatcher s")
       (simp_all add: StartReading.simps step1_events_def after_RecvFrom_def emit_def
          PostTask_def Let_def)
qed

lemma OnReadComplete_cases:
  "OnReadComplete K E r s =
     (if read_result K r < 0
      then Stop (s\<lparr>read_pending := False,
                  history := history s @
                    [LOG_ERROR ''QuicRawServer read failed: '' (read_result K r)]\<rparr>)
      else if dispatcher s = None then Inl NullDereference
      else StartReading K E
             (s\<lparr>read_pending := False,
                history := history s @
                  [Clock_Now,
                   Dispatcher_ProcessPacket (server_address s) (client_address s)
                     (QuicReceivedPacket (read_result K r) (Now_ret E (history s)) False)]\<rparr>))"
  by (cases "dispatcher s")
     (simp_all add: OnReadComplete.simps read_result_def emit_def Let_def)

lemma Stop_cases:
  "Stop s =
     (if dispatcher s = None then Inl NullDereference
      else Inr (s\<lparr>socket := None,
                 history := history s @ Dispatcher_Shutdown #
                   (case socket s of None \<Rightarrow> [] | Some sock \<Rightarrow> [Socket_Close, Socket_delete])\<rparr>))"
  by (cases "dispatcher s"; cases "socket s") (simp_all add: Stop_def emit_def Let_def)



subsection \<open>Induction along the calls of the receive loop\<close>

lemma receive_loop_induct [case_names StartReading OnReadComplete]:
  assumes SR: "\<And>K E s.
      (\<And>sock. \<not> (synchronous_read_count s = 0 \<and> dispatcher s = None) \<Longrightarrow>
          \<not> read_pending s \<Longrightarrow> socket s = Some sock \<Longrightarrow>
          RecvFrom_rc E (history s @ step1_events s) \<noteq> ERR_IO_PENDING K \<Longrightarrow>
          \<not> 32 < synchronous_read_count s + 1 \<Longrightarrow>
          Q K E (RecvFrom_rc E (history s @ step1_events s))
            ((after_RecvFrom E s)\<lparr>synchronous_read_count := synchronous_read_count s + 1\<rparr>))
      \<Longrightarrow> P K E s"
    and ORC: "\<And>K E r s.
      (\<And>d. \<not> read_result K r < 0 \<Longrightarrow> dispatcher s = Some d \<Longrightarrow>
          P K E (s\<lparr>read_pending := False,
                   history := history s @
                     [Clock_Now,
                      Dispatcher_ProcessPacket (server_address s) (client_address s)
                        (QuicReceivedPacket (read_result K r) (Now_ret E (history s)) False)]\<rparr>))
      \<Longrightarrow> Q K E r s"
  shows "P K E s" and "Q K E r s"
proof (induct K E s and K E r s rule: StartReading_OnReadComplete.induct)
  case (1 K E s)
  show ?case
  proof (rule SR)
    fix sock
    assume h: "\<not> (synchronous_read_count s = 0 \<and> dispatcher s = None)"
      "\<not> read_pending s" "socket s = Some sock"
      "RecvFrom_rc E (history s @ step1_events s) \<noteq> ERR_IO_PENDING K"
      "\<not> 32 < synchronous_read_count s + 1"
    let ?x = "if synchronous_read_count s = 0
              then emit (Dispatcher_ProcessBufferedChlos kNumSessionsToCreatePerSocketEvent) s
              else s"
    let ?xa = "?x\<lparr>read_pending := True\<rparr>"
    let ?xc = "(emit Socket_RecvFrom ?xa)
                 \<lparr>client_address := RecvFrom_out E (history ?xa) (client_address ?xa)\<rparr>"
    let ?xd = "?xc\<lparr>synchronous_read_count := synchronous_read_count ?xc + 1\<rparr>"
    have x1: "\<not> read_pending ?x" using h(2) by (simp add: emit_def)
    have x2: "socket ?x = Some sock" using h(3) by (simp add: emit_def)
    have hx: "history ?xa = history s @ step1_events s"
      by (simp add: emit_def step1_events_def)
    have x3: "RecvFrom_rc E (history ?xa) \<noteq> ERR_IO_PENDING K"
      unfolding hx by (rule h(4))
    have x4: "\<not> 32 < synchronous_read_count ?xd"
      using h(5) by (simp add: emit_def)
    have eq: "?xd = (after_RecvFrom E s)\<lparr>synchronous_read_count := synchronous_read_count s + 1\<rparr>"
      by (simp add: after_RecvFrom_def step1_events_def emit_def)
    have "Q K E (RecvFrom_rc E (history ?xa)) ?xd"
      by (rule "1.hyps" [OF h(1) refl x1 x2 refl refl refl x3 refl x4])
    then have "Q K E (RecvFrom_rc E (history ?xa))
            ((after_RecvFrom E s)\<lparr>synchronous_read_count := synchronous_read_count s + 1\<rparr>)"
      by (simp only: eq)
    then show "Q K E (RecvFrom_rc E (history s @ step1_events s))
            ((after_RecvFrom E s)\<lparr>synchronous_read_count := synchronous_read_count s + 1\<rparr>)"
      by (simp only: hx)
  qed
next
  case (2 K E r s)
  show ?case
  proof (rule ORC)
    fix d
    assume h: "\<not> read_result K r < 0" "dispatcher s = Some d"
    show "P K E (s\<lparr>read_pending := False,
                   history := history s @
                     [Clock_Now,
                      Dispatcher_ProcessPacket (server_address s) (client_address s)
                        (QuicReceivedPacket (read_result K r) (Now_ret E (history s)) False)]\<rparr>)"
      using "2.hyps" [OF refl refl _ _ refl refl refl refl, of d] h
      by (simp add: read_result_def emit_def)
  qed
qed



lemma history_extends:
  "\<forall>s'. StartReading K E s = Inr s' \<longrightarrow> (\<exists>t. history s' = history s @ t)"
  "\<forall>s'. OnReadComplete K E r s = Inr s' \<longrightarrow> (\<exists>t. history s' = history s @ t)"
proof (induct K E s and K E r s rule: receive_loop_induct)
  case (StartReading K E s)
  then show ?case
    by (subst StartReading_cases) (auto simp: after_RecvFrom_def split: if_splits)
next
  case (OnReadComplete K E r s)
  then show ?case
    by (subst OnReadComplete_cases) (auto simp: Stop_cases split: if_splits)
qed




lemma started_returns:
  "dispatcher s \<noteq> None \<longrightarrow> read_pending s \<or> socket s \<noteq> None \<longrightarrow>
     (\<exists>s'. StartReading K E s = Inr s')"
  "dispatcher s \<noteq> None \<longrightarrow> socket s \<noteq> None \<longrightarrow> (\<exists>s'. OnReadComplete K E r s = Inr s')"
proof (induct K E s and K E r s rule: receive_loop_induct)
  case (StartReading K E s)
  then show ?case
    by (subst StartReading_cases) (auto simp: after_RecvFrom_def split: if_splits)
next
  case (OnReadComplete K E r s)
  then show ?case
    by (subst OnReadComplete_cases) (auto simp: Stop_cases split: if_splits)
qed


subsection \<open>The invariant is kept by the receive loop\<close>

lemma unhandled_receives_unchanged [simp]:
  "unhandled_receives (s\<lparr>history := h\<rparr>) = unhandled_receives s"
  "unhandled_receives (s\<lparr>read_pending := b\<rparr>) = unhandled_receives s"
  "unhandled_receives (s\<lparr>synchronous_read_count := c\<rparr>) = unhandled_receives s"
  "unhandled_receives (s\<lparr>client_address := a\<rparr>) = unhandled_receives s"
  "unhandled_receives (s\<lparr>server_address := a\<rparr>) = unhandled_receives s"
  by (simp_all add: unhandled_receives_def in_flight_def)

lemma unhandled_receives_after_RecvFrom [simp]:
  "unhandled_receives (after_RecvFrom E s) = unhandled_receives s"
  by (simp add: after_RecvFrom_def)

lemma after_RecvFrom_fields [simp]:
  "socket (after_RecvFrom E s) = socket s"
  "dispatcher (after_RecvFrom E s) = dispatcher s"
  "task_queue (after_RecvFrom E s) = task_queue s"
  "synchronous_read_count (after_RecvFrom E s) = synchronous_read_count s"
  "read_pending (after_RecvFrom E s) = True"
  "history (after_RecvFrom E s) = history s @ step1_events s @ [Socket_RecvFrom]"
  by (simp_all add: after_RecvFrom_def)

lemma invariant_StartReading_step:
  assumes inv: "endpoint_invariant s"
    and run: "StartReading K E s = Inr s'"
    and IH: "\<And>s'. \<not> read_pending s \<Longrightarrow>
               RecvFrom_rc E (history s @ step1_events s) \<noteq> ERR_IO_PENDING K \<Longrightarrow>
               \<not> 32 < synchronous_read_count s + 1 \<Longrightarrow>
               OnReadComplete K E (RecvFrom_rc E (history s @ step1_events s))
                 ((after_RecvFrom E s)\<lparr>synchronous_read_count := synchronous_read_count s + 1\<rparr>)
                 = Inr s' \<Longrightarrow> endpoint_invariant s'"
  shows "endpoint_invariant s'"
proof (cases "read_pending s")
  case True
  with run have "s' = s\<lparr>history := history s @ step1_events s\<rparr>"
    by (simp add: StartReading_cases [of K E s] split: if_splits)
  with inv show ?thesis by (simp add: endpoint_invariant_def)
next
  case np: False
  with inv have u0: "unhandled_receives s = 0"
    and range: "0 \<le> synchronous_read_count s" "synchronous_read_count s \<le> 32"
    by (simp_all add: endpoint_invariant_def)
  from run np obtain sock where sock: "socket s = Some sock"
    by (cases "socket s") (simp_all add: StartReading_cases [of K E s] split: if_splits)
  from u0 sock have fl: "receives_in_flight sock = 0" and q: "filter is_completion (task_queue s) = []"
    by (simp_all add: unhandled_receives_def in_flight_def)
  show ?thesis
  proof (cases "RecvFrom_rc E (history s @ step1_events s) = ERR_IO_PENDING K")
    case True
    with run np sock have d: "dispatcher s \<noteq> None"
      and s': "s' = (after_RecvFrom E s)
                \<lparr>synchronous_read_count := 0,
                 socket := map_option (receives_in_flight_update Suc) (socket s),
                 task_queue := task_queue s @
                   (if HasChlosBuffered_ret E (history s @ step1_events s @ [Socket_RecvFrom])
                    then [Task_StartReading] else []),
                 history := history s @ step1_events s @
                   [Socket_RecvFrom, Dispatcher_HasChlosBuffered]\<rparr>"
      by (simp_all add: StartReading_cases [of K E s] split: if_splits)
    show ?thesis
      unfolding s' using d sock fl q
      by (simp add: endpoint_invariant_def unhandled_receives_def in_flight_def)
  next
    case sync: False
    show ?thesis
    proof (cases "32 < synchronous_read_count s + 1")
      case True
      with run np sock sync have d: "synchronous_read_count s \<noteq> 0 \<or> dispatcher s \<noteq> None"
        and s': "s' = (after_RecvFrom E s)
               \<lparr>synchronous_read_count := 0,
                task_queue := task_queue s @
                  [Task_OnReadComplete (RecvFrom_rc E (history s @ step1_events s))]\<rparr>"
        by (simp_all add: StartReading_cases [of K E s] split: if_splits)
      from inv d have d': "dispatcher s \<noteq> None"
        by (auto simp: endpoint_invariant_def)
      show ?thesis
        unfolding s' using d' sock fl q
        by (simp add: endpoint_invariant_def unhandled_receives_def in_flight_def)
    next
      case False
      with run np sock sync have
        "OnReadComplete K E (RecvFrom_rc E (history s @ step1_events s))
           ((after_RecvFrom E s)\<lparr>synchronous_read_count := synchronous_read_count s + 1\<rparr>) = Inr s'"
        by (simp add: StartReading_cases [of K E s] split: if_splits)
      with np sync False show ?thesis by (rule IH)
    qed
  qed
qed

lemma invariant_OnReadComplete_step:
  assumes pre: "0 \<le> synchronous_read_count s" "synchronous_read_count s \<le> 32"
      "unhandled_receives s = 0"
    and run: "OnReadComplete K E r s = Inr s'"
    and IH: "\<And>s0 s'. \<not> read_result K r < 0 \<Longrightarrow> dispatcher s \<noteq> None \<Longrightarrow>
               s0 = s\<lparr>read_pending := False,
                   history := history s @
                     [Clock_Now,
                      Dispatcher_ProcessPacket (server_address s) (client_address s)
                        (QuicReceivedPacket (read_result K r) (Now_ret E (history s)) False)]\<rparr> \<Longrightarrow>
               endpoint_invariant s0 \<Longrightarrow> StartReading K E s0 = Inr s' \<Longrightarrow> endpoint_invariant s'"
  shows "endpoint_invariant s'"
proof (cases "read_result K r < 0")
  case True
  with run have d: "dispatcher s \<noteq> None"
    and s': "s' = s\<lparr>read_pending := False,
                  history := history s @
                    [LOG_ERROR ''QuicRawServer read failed: '' (read_result K r)],
                  socket := None,
                  history := history s @
                    [LOG_ERROR ''QuicRawServer read failed: '' (read_result K r)] @
                    Dispatcher_Shutdown #
                    (case socket s of None \<Rightarrow> [] | Some sock \<Rightarrow> [Socket_Close, Socket_delete])\<rparr>"
    by (simp_all add: OnReadComplete_cases [of K E r s] Stop_cases split: if_splits)
  from pre(3) have q: "filter is_completion (task_queue s) = []"
    by (simp add: unhandled_receives_def)
  from d obtain y where "dispatcher s = Some y" by auto
  then show ?thesis
    unfolding s' using pre q
    by (simp add: endpoint_invariant_def unhandled_receives_def in_flight_def)
next
  case False
  let ?s0 = "s\<lparr>read_pending := False,
                   history := history s @
                     [Clock_Now,
                      Dispatcher_ProcessPacket (server_address s) (client_address s)
                        (QuicReceivedPacket (read_result K r) (Now_ret E (history s)) False)]\<rparr>"
  from False run have d: "dispatcher s \<noteq> None" and run0: "StartReading K E ?s0 = Inr s'"
    by (simp_all add: OnReadComplete_cases [of K E r s] split: if_splits)
  have "endpoint_invariant ?s0"
    using pre d by (auto simp: endpoint_invariant_def)
  with False d show ?thesis using run0 by (rule IH [OF _ _ refl])
qed

lemma receive_loop_invariant:
  "endpoint_invariant s \<longrightarrow> (\<forall>s'. StartReading K E s = Inr s' \<longrightarrow> endpoint_invariant s')"
  "0 \<le> synchronous_read_count s \<and> synchronous_read_count s \<le> 32 \<and> unhandled_receives s = 0 \<longrightarrow>
     (\<forall>s'. OnReadComplete K E r s = Inr s' \<longrightarrow> endpoint_invariant s')"
proof (induct K E s and K E r s rule: receive_loop_induct)
  case (StartReading K E s)
  show ?case
  proof (intro impI allI)
    fix s'
    assume inv: "endpoint_invariant s" and run: "StartReading K E s = Inr s'"
    from inv run show "endpoint_invariant s'"
    proof (rule invariant_StartReading_step)
      fix s''
      assume h: "\<not> read_pending s"
        "RecvFrom_rc E (history s @ step1_events s) \<noteq> ERR_IO_PENDING K"
        "\<not> 32 < synchronous_read_count s + 1"
        and orc: "OnReadComplete K E (RecvFrom_rc E (history s @ step1_events s))
                 ((after_RecvFrom E s)\<lparr>synchronous_read_count := synchronous_read_count s + 1\<rparr>)
                 = Inr s''"
      from inv h(1) have u0: "unhandled_receives s = 0"
        and range: "0 \<le> synchronous_read_count s"
        by (simp_all add: endpoint_invariant_def)
      from run h(1) obtain sock where sock: "socket s = Some sock"
        by (cases "socket s") (simp_all add: StartReading_cases [of K E s] split: if_splits)
      from run have nd: "\<not> (synchronous_read_count s = 0 \<and> dispatcher s = None)"
        by (simp add: StartReading_cases [of K E s] split: if_splits)
      from StartReading [OF nd h(1) sock h(2) h(3)] u0 range h(3) orc
      show "endpoint_invariant s''" by simp
    qed
  qed
next
  case (OnReadComplete K E r s)
  show ?case
  proof (intro impI allI, elim conjE)
    fix s'
    assume pre: "0 \<le> synchronous_read_count s" "synchronous_read_count s \<le> 32"
      "unhandled_receives s = 0" and run: "OnReadComplete K E r s = Inr s'"
    from pre run show "endpoint_invariant s'"
    proof (rule invariant_OnReadComplete_step)
      fix s0 s''
      assume h: "\<not> read_result K r < 0" "dispatcher s \<noteq> None"
        and s0: "s0 = s\<lparr>read_pending := False,
                   history := history s @
                     [Clock_Now,
                      Dispatcher_ProcessPacket (server_address s) (client_address s)
                        (QuicReceivedPacket (read_result K r) (Now_ret E (history s)) False)]\<rparr>"
        and inv0: "endpoint_invariant s0" and run0: "StartReading K E s0 = Inr s''"
      from h(2) obtain d where d: "dispatcher s = Some d" by auto
      from OnReadComplete [OF h(1) d] inv0 run0 show "endpoint_invariant s''"
        unfolding s0 by blast
    qed
  qed
qed

subsection \<open>StartOnCurrentThread up to the receive loop\<close>

lemma emit_fields [simp]:
  "socket (emit e s) = socket s"
  "dispatcher (emit e s) = dispatcher s"
  "read_pending (emit e s) = read_pending s"
  "synchronous_read_count (emit e s) = synchronous_read_count s"
  "task_queue (emit e s) = task_queue s"
  "port (emit e s) = port s"
  "config (emit e s) = config s"
  "client_address (emit e s) = client_address s"
  "server_address (emit e s) = server_address s"
  "history (emit e s) = history s @ [e]"
  by (simp_all add: emit_def)

lemma log_if_failed_fields [simp]:
  "socket (log_if_failed what rc s) = socket s"
  "dispatcher (log_if_failed what rc s) = dispatcher s"
  "read_pending (log_if_failed what rc s) = read_pending s"
  "synchronous_read_count (log_if_failed what rc s) = synchronous_read_count s"
  "task_queue (log_if_failed what rc s) = task_queue s"
  "port (log_if_failed what rc s) = port s"
  "config (log_if_failed what rc s) = config s"
  "client_address (log_if_failed what rc s) = client_address s"
  "server_address (log_if_failed what rc s) = server_address s"
  "history (log_if_failed what rc s) = history s @ failure_log what rc"
  by (simp_all add: log_if_failed_def failure_log_def)

lemma setup_fields:
  "socket (StartOnCurrentThread_setup K E s) = Some \<lparr>receives_in_flight = 0\<rparr>"
  "dispatcher (StartOnCurrentThread_setup K E s) = Some \<lparr>writer = Some QuicSimpleServerPacketWriter\<rparr>"
  "read_pending (StartOnCurrentThread_setup K E s) = read_pending s"
  "synchronous_read_count (StartOnCurrentThread_setup K E s) = synchronous_read_count s"
  "task_queue (StartOnCurrentThread_setup K E s) = task_queue s"
  "port (StartOnCurrentThread_setup K E s) = port s"
  "client_address (StartOnCurrentThread_setup K E s) = client_address s"
  by (simp_all add: StartOnCurrentThread_setup_def Let_def split: option.split)


lemma setup_history:
  "history (StartOnCurrentThread_setup K E s) =
     (let h1 = history s @ [Socket_new, Socket_AllowAddressReuse];
          h2 = h1 @ Socket_Listen (IPEndPoint IPv6AllZeros (word_of_int (port s)))
                 # failure_log ''Listen() failed: '' (Listen_rc E h1);
          h3 = h2 @ Socket_SetReceiveBufferSize (int32 (kDefaultSocketReceiveBuffer K))
                 # failure_log ''SetReceiveBufferSize() failed: '' (SetReceiveBufferSize_rc E h2);
          h4 = h3 @ Socket_SetSendBufferSize (int32 (320 * kMaxIncomingPacketSize K))
                 # failure_log ''SetSendBufferSize() failed: '' (SetSendBufferSize_rc E h3);
          h5 = h4 @ Socket_GetLocalAddress
                 # failure_log ''GetLocalAddress() failed: '' (GetLocalAddress_rc E h4)
      in h5 @ Dispatcher_new # (case dispatcher s of None \<Rightarrow> [] | Some d \<Rightarrow> [Dispatcher_delete])
            @ [PacketWriter_new, Dispatcher_InitializeWithWriter])"
  by (simp add: StartOnCurrentThread_setup_def Let_def split: option.split)

lemma setup_server_address:
  "server_address (StartOnCurrentThread_setup K E s) =
     (let h1 = history s @ [Socket_new, Socket_AllowAddressReuse];
          h2 = h1 @ Socket_Listen (IPEndPoint IPv6AllZeros (word_of_int (port s)))
                 # failure_log ''Listen() failed: '' (Listen_rc E h1);
          h3 = h2 @ Socket_SetReceiveBufferSize (int32 (kDefaultSocketReceiveBuffer K))
                 # failure_log ''SetReceiveBufferSize() failed: '' (SetReceiveBufferSize_rc E h2);
          h4 = h3 @ Socket_SetSendBufferSize (int32 (320 * kMaxIncomingPacketSize K))
                 # failure_log ''SetSendBufferSize() failed: '' (SetSendBufferSize_rc E h3)
      in GetLocalAddress_out E h4 (server_address s))"
  by (simp add: StartOnCurrentThread_setup_def Let_def split: option.split)


subsection \<open>The invariant holds in every reachable state\<close>

lemma unhandled_receives_not_more:
  assumes "endpoint_invariant s"
    and "unhandled_receives s' \<le> unhandled_receives s"
    and "read_pending s' = read_pending s"
    and "synchronous_read_count s' = synchronous_read_count s"
    and "dispatcher s' \<noteq> None \<or> dispatcher s' = dispatcher s \<and> socket s' = socket s"
  shows "endpoint_invariant s'"
  using assms unfolding endpoint_invariant_def by auto

lemma setup_invariant:
  assumes "endpoint_invariant s"
  shows "endpoint_invariant (StartOnCurrentThread_setup K E s)"
  using assms
  by (rule unhandled_receives_not_more)
     (simp_all add: unhandled_receives_def in_flight_def setup_fields)

lemma Start_invariant: "endpoint_invariant s \<Longrightarrow> endpoint_invariant (snd (Start s))"
  by (erule unhandled_receives_not_more)
     (simp_all add: Start_def PostTask_def unhandled_receives_def in_flight_def)

lemma Stop_invariant:
  assumes "endpoint_invariant s" "Stop s = Inr s'"
  shows "endpoint_invariant s'"
proof -
  from assms(2) have d: "dispatcher s \<noteq> None"
    and s': "s' = s\<lparr>socket := None,
                 history := history s @ Dispatcher_Shutdown #
                   (case socket s of None \<Rightarrow> [] | Some sock \<Rightarrow> [Socket_Close, Socket_delete])\<rparr>"
    by (simp_all add: Stop_cases split: if_splits)
  show ?thesis
    unfolding s'
    by (rule unhandled_receives_not_more [OF assms(1)])
       (simp_all add: unhandled_receives_def in_flight_def d)
qed

lemma emit_invariant: "endpoint_invariant (emit e s) = endpoint_invariant s"
  by (simp add: emit_def endpoint_invariant_def)

lemma StartReading_invariant:
  "endpoint_invariant s \<Longrightarrow> StartReading K E s = Inr s' \<Longrightarrow> endpoint_invariant s'"
  by (rule receive_loop_invariant(1) [rule_format])

lemma OnReadComplete_invariant:
  "0 \<le> synchronous_read_count s \<Longrightarrow> synchronous_read_count s \<le> 32 \<Longrightarrow>
   unhandled_receives s = 0 \<Longrightarrow> OnReadComplete K E r s = Inr s' \<Longrightarrow> endpoint_invariant s'"
  by (rule receive_loop_invariant(2) [rule_format]) simp_all

lemma dequeue_invariant:
  assumes "endpoint_invariant s" "task_queue s = t # q"
  shows "endpoint_invariant (s\<lparr>task_queue := q\<rparr>)"
  using assms(1)
  by (rule unhandled_receives_not_more)
     (simp_all add: unhandled_receives_def in_flight_def assms(2))

lemma run_task_invariant:
  assumes inv: "endpoint_invariant s" and q: "task_queue s = t # q"
    and run: "run_task K E t (s\<lparr>task_queue := q\<rparr>) = Inr s'"
  shows "endpoint_invariant s'"
proof (cases t)
  case Task_StartOnCurrentThread
  from run Task_StartOnCurrentThread obtain s1 where
    s1: "StartReading K E (StartOnCurrentThread_setup K E (s\<lparr>task_queue := q\<rparr>)) = Inr s1"
    and s': "s' = (case socket (s\<lparr>task_queue := q\<rparr>) of None \<Rightarrow> s1 | Some old \<Rightarrow> emit Socket_delete s1)"
    by (auto simp: run_task_def StartOnCurrentThread_def split: sum.splits)
  from setup_invariant [OF dequeue_invariant [OF inv q]] s1 have "endpoint_invariant s1"
    by (rule StartReading_invariant)
  then show ?thesis unfolding s' by (simp add: emit_invariant split: option.split)
next
  case Task_StartReading
  from run Task_StartReading have "StartReading K E (s\<lparr>task_queue := q\<rparr>) = Inr s'"
    by (simp add: run_task_def)
  with dequeue_invariant [OF inv q] show ?thesis by (rule StartReading_invariant)
next
  case (Task_OnReadComplete r)
  from inv have u: "unhandled_receives s \<le> 1"
    and range: "0 \<le> synchronous_read_count s" "synchronous_read_count s \<le> 32"
    unfolding endpoint_invariant_def by auto
  from u q Task_OnReadComplete have "unhandled_receives (s\<lparr>task_queue := q\<rparr>) = 0"
    by (simp add: unhandled_receives_def in_flight_def)
  moreover from run Task_OnReadComplete have "OnReadComplete K E r (s\<lparr>task_queue := q\<rparr>) = Inr s'"
    by (simp add: run_task_def)
  ultimately show ?thesis using range by (intro OnReadComplete_invariant [of _ K E r s']) simp_all
qed

lemma completion_invariant:
  assumes inv: "endpoint_invariant s" and sock: "socket s = Some sock"
    and fl: "0 < receives_in_flight sock"
    and run: "OnReadComplete K E r
       (s\<lparr>socket := Some (sock\<lparr>receives_in_flight := receives_in_flight sock - 1\<rparr>),
          client_address := a\<rparr>) = Inr s'"
  shows "endpoint_invariant s'"
proof -
  from inv have u: "unhandled_receives s \<le> 1"
    and range: "0 \<le> synchronous_read_count s" "synchronous_read_count s \<le> 32"
    unfolding endpoint_invariant_def by auto
  from u sock fl have "unhandled_receives
       (s\<lparr>socket := Some (sock\<lparr>receives_in_flight := receives_in_flight sock - 1\<rparr>),
          client_address := a\<rparr>) = 0"
    by (cases "filter is_completion (task_queue s)")
       (simp_all add: unhandled_receives_def in_flight_def)
  with run range show ?thesis by (intro OnReadComplete_invariant [of _ K E r s']) simp_all
qed

lemma constructed_invariant: "endpoint_invariant (QuicTransportOWTServerImpl K p cfg)"
  by (simp add: QuicTransportOWTServerImpl_def Initialize_def emit_def endpoint_invariant_def
      unhandled_receives_def in_flight_def Let_def)

lemma reachable_invariant: "reachable K E s \<Longrightarrow> endpoint_invariant s"
proof (induction rule: reachable.induct)
  case (constructed p cfg)
  show ?case by (rule constructed_invariant)
next
  case (Start_called s)
  then show ?case by (simp add: Start_invariant)
next
  case (Stop_called s s')
  from Stop_called.IH Stop_called.hyps(2) show ?case by (rule Stop_invariant)
next
  case (task_run s t q s')
  from task_run.IH task_run.hyps(2,3) show ?case by (rule run_task_invariant)
next
  case (receive_completed s sock r a s')
  from receive_completed.IH receive_completed.hyps(2,3,4) show ?case by (rule completion_invariant)
qed

subsection \<open>The receive loop, step by step\<close>

lemma count_list_step1 [simp]: "count_list (step1_events s) Socket_RecvFrom = 0"
  by (simp add: step1_events_def)

lemma filter_step1 [simp]: "filter is_ProcessPacket (step1_events s) = []"
  by (simp add: step1_events_def)

lemma yield_after_run:
  "\<And>s. dispatcher s \<noteq> None \<Longrightarrow> socket s \<noteq> None \<Longrightarrow> \<not> read_pending s \<Longrightarrow>
     nat (32 - synchronous_read_count s) = k \<Longrightarrow>
     (\<forall>t. count_list t Socket_RecvFrom \<le> k \<longrightarrow>
          0 < RecvFrom_rc E (history s @ t) \<and> RecvFrom_rc E (history s @ t) \<noteq> ERR_IO_PENDING K) \<Longrightarrow>
     \<exists>s' r t. StartReading K E s = Inr s'
        \<and> task_queue s' = task_queue s @ [Task_OnReadComplete r]
        \<and> synchronous_read_count s' = 0 \<and> read_pending s'
        \<and> history s' = history s @ t
        \<and> count_list t Socket_RecvFrom = k + 1
        \<and> length (filter is_ProcessPacket t) = k"
proof (induction k)
  case 0
  let ?r = "RecvFrom_rc E (history s @ step1_events s)"
  from "0.prems"(5) have sync: "?r \<noteq> ERR_IO_PENDING K" by simp
  from "0.prems"(4) have big: "32 < synchronous_read_count s + 1" by simp
  let ?s' = "(after_RecvFrom E s)
               \<lparr>synchronous_read_count := 0,
                task_queue := task_queue s @ [Task_OnReadComplete ?r]\<rparr>"
  have "StartReading K E s = Inr ?s'"
    using "0.prems"(1,2,3) sync big by (auto simp: StartReading_cases [of K E s])
  moreover have "history ?s' = history s @ (step1_events s @ [Socket_RecvFrom])" by simp
  ultimately show ?case
    by (intro exI [of _ ?s'] exI [of _ ?r] exI [of _ "step1_events s @ [Socket_RecvFrom]"]) simp
next
  case (Suc k)
  let ?r = "RecvFrom_rc E (history s @ step1_events s)"
  from Suc.prems(5) have sync: "?r \<noteq> ERR_IO_PENDING K" and pos: "0 < ?r" by simp_all
  from Suc.prems(4) have small: "\<not> 32 < synchronous_read_count s + 1" by simp
  let ?s4 = "(after_RecvFrom E s)\<lparr>synchronous_read_count := synchronous_read_count s + 1\<rparr>"
  let ?u = "[Clock_Now,
             Dispatcher_ProcessPacket (server_address ?s4) (client_address ?s4)
               (QuicReceivedPacket (read_result K ?r) (Now_ret E (history ?s4)) False)]"
  let ?s5 = "?s4\<lparr>read_pending := False, history := history ?s4 @ ?u\<rparr>"
  have step: "StartReading K E s = OnReadComplete K E ?r ?s4"
    using Suc.prems(1,2,3) sync small by (auto simp: StartReading_cases [of K E s])
  from pos have rr: "\<not> read_result K ?r < 0" by (simp add: read_result_def)
  have step2: "OnReadComplete K E ?r ?s4 = StartReading K E ?s5"
    using rr Suc.prems(1) by (auto simp: OnReadComplete_cases [of K E ?r ?s4])
  have h5: "history ?s5 = history s @ (step1_events s @ Socket_RecvFrom # ?u)" by simp
  have env: "\<forall>t. count_list t Socket_RecvFrom \<le> k \<longrightarrow>
          0 < RecvFrom_rc E (history ?s5 @ t) \<and> RecvFrom_rc E (history ?s5 @ t) \<noteq> ERR_IO_PENDING K"
  proof (intro allI impI)
    fix t assume "count_list t Socket_RecvFrom \<le> k"
    then have "count_list ((step1_events s @ Socket_RecvFrom # ?u) @ t) Socket_RecvFrom \<le> Suc k"
      by simp
    with Suc.prems(5) have "0 < RecvFrom_rc E (history s @ (step1_events s @ Socket_RecvFrom # ?u) @ t)
        \<and> RecvFrom_rc E (history s @ (step1_events s @ Socket_RecvFrom # ?u) @ t) \<noteq> ERR_IO_PENDING K"
      by blast
    then show "0 < RecvFrom_rc E (history ?s5 @ t) \<and> RecvFrom_rc E (history ?s5 @ t) \<noteq> ERR_IO_PENDING K"
      by simp
  qed
  have "\<exists>s' r t. StartReading K E ?s5 = Inr s'
        \<and> task_queue s' = task_queue ?s5 @ [Task_OnReadComplete r]
        \<and> synchronous_read_count s' = 0 \<and> read_pending s'
        \<and> history s' = history ?s5 @ t
        \<and> count_list t Socket_RecvFrom = k + 1
        \<and> length (filter is_ProcessPacket t) = k"
  proof (rule Suc.IH)
    show "dispatcher ?s5 \<noteq> None" using Suc.prems(1) by simp
    show "socket ?s5 \<noteq> None" using Suc.prems(2) by simp
    show "\<not> read_pending ?s5" by simp
    show "nat (32 - synchronous_read_count ?s5) = k" using Suc.prems(4) by simp
    show "\<forall>t. count_list t Socket_RecvFrom \<le> k \<longrightarrow>
          0 < RecvFrom_rc E (history ?s5 @ t) \<and> RecvFrom_rc E (history ?s5 @ t) \<noteq> ERR_IO_PENDING K"
      by (rule env)
  qed
  then obtain s' r t where res: "StartReading K E ?s5 = Inr s'"
      "task_queue s' = task_queue ?s5 @ [Task_OnReadComplete r]"
      "synchronous_read_count s' = 0" "read_pending s'"
      "history s' = history ?s5 @ t" "count_list t Socket_RecvFrom = k + 1"
      "length (filter is_ProcessPacket t) = k"
    by blast
  have "StartReading K E s = Inr s'" using step step2 res(1) by simp
  moreover have "task_queue s' = task_queue s @ [Task_OnReadComplete r]" using res(2) by simp
  moreover have "history s' = history s @ ((step1_events s @ Socket_RecvFrom # ?u) @ t)"
    using res(5) by simp
  moreover have "count_list ((step1_events s @ Socket_RecvFrom # ?u) @ t) Socket_RecvFrom = Suc k + 1"
    using res(6) by simp
  moreover have "length (filter is_ProcessPacket ((step1_events s @ Socket_RecvFrom # ?u) @ t)) = Suc k"
    using res(7) by simp
  ultimately show ?case using res(3,4) by blast
qed


lemma fresh_endpoint_fields:
  "socket fresh_endpoint = None" "dispatcher fresh_endpoint = None"
  "read_pending fresh_endpoint = False" "synchronous_read_count fresh_endpoint = 0"
  "task_queue fresh_endpoint = []" "port fresh_endpoint = 4433"
  "history fresh_endpoint = [CryptoConfig_AddDefaultConfig]"
  by (simp_all add: fresh_endpoint_def QuicTransportOWTServerImpl_def Initialize_def Let_def)

lemma listening_endpoint_fields:
  "socket (listening_endpoint E) = Some \<lparr>receives_in_flight = 0\<rparr>"
  "dispatcher (listening_endpoint E) = Some \<lparr>writer = Some QuicSimpleServerPacketWriter\<rparr>"
  "read_pending (listening_endpoint E) = False"
  "synchronous_read_count (listening_endpoint E) = 0"
  "task_queue (listening_endpoint E) = []"
  by (simp_all add: listening_endpoint_def setup_fields fresh_endpoint_fields)

lemma network_answers [simp]:
  "RecvFrom_rc (network rc received buffered) h = received"
  "HasChlosBuffered_ret (network rc received buffered) h = buffered"
  "Now_ret (network rc received buffered) h = length h"
  "RecvFrom_out (network rc received buffered) h a = IPEndPoint (IPAddress [192, 0, 2, 7]) 50000"
  "Listen_rc (network rc received buffered) h = rc"
  "SetReceiveBufferSize_rc (network rc received buffered) h = rc"
  "SetSendBufferSize_rc (network rc received buffered) h = rc"
  "GetLocalAddress_rc (network rc received buffered) h = rc"
  "GetLocalAddress_out (network rc received buffered) h a = IPEndPoint IPv6AllZeros 4433"
  by (simp_all add: network_def)

lemma int32_chromium_sizes [simp]:
  "int32 1048576 = 1048576" "int32 471040 = 471040"
  by (simp_all add: int32_def)

lemma chromium_constants_values [simp]:
  "OK chromium_constants = 0" "ERR_IO_PENDING chromium_constants = - 1"
  "ERR_CONNECTION_CLOSED chromium_constants = - 100"
  "kMaxIncomingPacketSize chromium_constants = 1472"
  "kDefaultSocketReceiveBuffer chromium_constants = 1024 * 1024"
  by (simp_all add: chromium_constants_def)

text \<open>
  Claim C6: when \<^verbatim>\<open>StartReading\<close> issues a receive and \<^verbatim>\<open>RecvFrom\<close> returns
  \<^verbatim>\<open>ERR_IO_PENDING\<close>, the call returns the state below and does nothing else: the
  counter is 0, the receive is in flight with the flag set, and the task queue has
  gained \<^verbatim>\<open>StartReading\<close> exactly when the Dispatcher answered that it has buffered
  CHLOs. The history ends with the receive and the question to the Dispatcher, so
  neither \<^verbatim>\<open>OnReadComplete\<close> nor \<^verbatim>\<open>StartReading\<close> was called in-line.
\<close>

theorem StartReading_receive_pending:
  assumes "\<not> read_pending s" "socket s = Some sock" "dispatcher s = Some d"
    and "RecvFrom_rc E (history s @ step1_events s) = ERR_IO_PENDING K"
  shows "StartReading K E s =
     Inr ((after_RecvFrom E s)
            \<lparr>synchronous_read_count := 0,
             socket := Some (sock\<lparr>receives_in_flight := receives_in_flight sock + 1\<rparr>),
             task_queue := task_queue s @
               (if HasChlosBuffered_ret E (history s @ step1_events s @ [Socket_RecvFrom])
                then [Task_StartReading] else []),
             history := history s @ step1_events s @
               [Socket_RecvFrom, Dispatcher_HasChlosBuffered]\<rparr>)"
  using assms by (simp add: StartReading_cases [of K E s])

theorem StartReading_receive_pending_witness:
  "\<not> read_pending (listening_endpoint (network 0 (- 1) True))
   \<and> socket (listening_endpoint (network 0 (- 1) True)) = Some \<lparr>receives_in_flight = 0\<rparr>
   \<and> dispatcher (listening_endpoint (network 0 (- 1) True))
       = Some \<lparr>writer = Some QuicSimpleServerPacketWriter\<rparr>
   \<and> RecvFrom_rc (network 0 (- 1) True)
        (history (listening_endpoint (network 0 (- 1) True))
          @ step1_events (listening_endpoint (network 0 (- 1) True)))
       = ERR_IO_PENDING chromium_constants
   \<and> StartReading chromium_constants (network 0 (- 1) True) (listening_endpoint (network 0 (- 1) True)) =
       Inr ((after_RecvFrom (network 0 (- 1) True) (listening_endpoint (network 0 (- 1) True)))
            \<lparr>synchronous_read_count := 0,
             socket := Some \<lparr>receives_in_flight = 1\<rparr>,
             task_queue := [Task_StartReading],
             history := history (listening_endpoint (network 0 (- 1) True)) @
               [Dispatcher_ProcessBufferedChlos 16, Socket_RecvFrom, Dispatcher_HasChlosBuffered]\<rparr>)"
proof -
  let ?E = "network 0 (- 1) True"
  let ?L = "listening_endpoint ?E"
  have h1: "\<not> read_pending ?L" by (simp add: listening_endpoint_fields)
  have h2: "socket ?L = Some \<lparr>receives_in_flight = 0\<rparr>" by (simp add: listening_endpoint_fields)
  have h3: "dispatcher ?L = Some \<lparr>writer = Some QuicSimpleServerPacketWriter\<rparr>"
    by (simp add: listening_endpoint_fields)
  have h4: "RecvFrom_rc ?E (history ?L @ step1_events ?L) = ERR_IO_PENDING chromium_constants"
    by simp
  have ev: "step1_events ?L = [Dispatcher_ProcessBufferedChlos 16]"
    by (simp add: step1_events_def listening_endpoint_fields kNumSessionsToCreatePerSocketEvent_def)
  from StartReading_receive_pending [OF h1 h2 h3 h4] h1 h2 h3 h4 show ?thesis
    by (simp add: ev listening_endpoint_fields)
qed


lemma StartReading_issues_receive:
  assumes "\<not> read_pending s" "StartReading K E s = Inr s'"
  shows "\<exists>t. history s' = history s @ step1_events s @ Socket_RecvFrom # t"
proof -
  let ?r = "RecvFrom_rc E (history s @ step1_events s)"
  let ?s4 = "(after_RecvFrom E s)\<lparr>synchronous_read_count := synchronous_read_count s + 1\<rparr>"
  from assms consider
      (pending) "history s' = history s @ step1_events s @ [Socket_RecvFrom, Dispatcher_HasChlosBuffered]"
    | (posted) "history s' = history s @ step1_events s @ [Socket_RecvFrom]"
    | (inline) "OnReadComplete K E ?r ?s4 = Inr s'"
    by (auto simp: StartReading_cases [of K E s] split: if_splits)
  then show ?thesis
  proof cases
    case pending
    then show ?thesis by simp
  next
    case posted
    then show ?thesis by simp
  next
    case inline
    with history_extends(2) [of K E ?r ?s4] obtain t where "history s' = history ?s4 @ t"
      by blast
    then show ?thesis by simp
  qed
qed

text \<open>
  Claim C7: on a started endpoint \<^verbatim>\<open>StartReading\<close> returns, and what it calls before
  its first \<^verbatim>\<open>RecvFrom\<close> (or before returning, when it issues none) is
  \<^verbatim>\<open>ProcessBufferedChlos(16)\<close> and nothing else when the counter is 0 at entry, and
  nothing at all when the counter is not 0.
\<close>

theorem StartReading_processes_buffered_chlos_first:
  assumes "dispatcher s \<noteq> None" "read_pending s \<or> socket s \<noteq> None"
  shows "\<exists>s' t. StartReading K E s = Inr s' \<and> history s' = history s @ t
           \<and> takeWhile (\<lambda>e. e \<noteq> Socket_RecvFrom) t =
               (if synchronous_read_count s = 0 then [Dispatcher_ProcessBufferedChlos 16] else [])"
proof (cases "read_pending s")
  case True
  with assms(1) have "StartReading K E s = Inr (s\<lparr>history := history s @ step1_events s\<rparr>)"
    by (simp add: StartReading_cases [of K E s])
  moreover have "takeWhile (\<lambda>e. e \<noteq> Socket_RecvFrom) (step1_events s) =
      (if synchronous_read_count s = 0 then [Dispatcher_ProcessBufferedChlos 16] else [])"
    by (simp add: step1_events_def kNumSessionsToCreatePerSocketEvent_def)
  ultimately show ?thesis by (intro exI [of _ "s\<lparr>history := history s @ step1_events s\<rparr>"] exI [of _ "step1_events s"]) simp
next
  case False
  from started_returns(1) [of s K E] assms obtain s' where run: "StartReading K E s = Inr s'"
    by blast
  from StartReading_issues_receive [OF False run] obtain t
    where t: "history s' = history s @ step1_events s @ Socket_RecvFrom # t" by blast
  have "takeWhile (\<lambda>e. e \<noteq> Socket_RecvFrom) (step1_events s @ Socket_RecvFrom # t) =
      (if synchronous_read_count s = 0 then [Dispatcher_ProcessBufferedChlos 16] else [])"
    by (simp add: step1_events_def kNumSessionsToCreatePerSocketEvent_def)
  with run t show ?thesis by blast
qed

theorem StartReading_processes_buffered_chlos_first_witness:
  "dispatcher (listening_endpoint (network 0 (- 1) False)) \<noteq> None
   \<and> (read_pending (listening_endpoint (network 0 (- 1) False))
       \<or> socket (listening_endpoint (network 0 (- 1) False)) \<noteq> None)
   \<and> (\<exists>s' t. StartReading chromium_constants (network 0 (- 1) False)
                 (listening_endpoint (network 0 (- 1) False)) = Inr s'
         \<and> history s' = history (listening_endpoint (network 0 (- 1) False)) @ t
         \<and> takeWhile (\<lambda>e. e \<noteq> Socket_RecvFrom) t = [Dispatcher_ProcessBufferedChlos 16])"
proof -
  let ?L = "listening_endpoint (network 0 (- 1) False)"
  have h1: "dispatcher ?L \<noteq> None" by (simp add: listening_endpoint_fields)
  have h2: "read_pending ?L \<or> socket ?L \<noteq> None" by (simp add: listening_endpoint_fields)
  from StartReading_processes_buffered_chlos_first [OF h1 h2, of chromium_constants "network 0 (- 1) False"]
    h1 h2 show ?thesis
    by (simp add: listening_endpoint_fields)
qed

text \<open>
  Claim C3: on a started endpoint with no receive pending, a receive that completes at
  once adds 1 to the counter; if the counter then exceeds 32 it is reset to 0 and
  \<^verbatim>\<open>OnReadComplete\<close> is posted with the result, and otherwise \<^verbatim>\<open>OnReadComplete\<close>
  is called in-line. Hence, with the counter at \<open>c\<close> and every further receive
  completing at once with data, \<^verbatim>\<open>StartReading\<close> returns after \<open>33 - c\<close> receives
  (at most 33 for a counter that is not negative): it has handled \<open>32 - c\<close> packets
  in-line and has posted the handler of the last receive, with the counter back at 0.
\<close>

theorem StartReading_yields_after_32_synchronous_reads:
  assumes "dispatcher s \<noteq> None" "socket s \<noteq> None" "\<not> read_pending s"
  shows "(RecvFrom_rc E (history s @ step1_events s) \<noteq> ERR_IO_PENDING K \<longrightarrow>
            StartReading K E s =
              (if 32 < synchronous_read_count s + 1
               then Inr ((after_RecvFrom E s)
                      \<lparr>synchronous_read_count := 0,
                       task_queue := task_queue s @
                         [Task_OnReadComplete (RecvFrom_rc E (history s @ step1_events s))]\<rparr>)
               else OnReadComplete K E (RecvFrom_rc E (history s @ step1_events s))
                      ((after_RecvFrom E s)
                         \<lparr>synchronous_read_count := synchronous_read_count s + 1\<rparr>)))
       \<and> ((\<forall>t. count_list t Socket_RecvFrom \<le> nat (32 - synchronous_read_count s) \<longrightarrow>
                0 < RecvFrom_rc E (history s @ t) \<and> RecvFrom_rc E (history s @ t) \<noteq> ERR_IO_PENDING K) \<longrightarrow>
           (\<exists>s' r t. StartReading K E s = Inr s'
               \<and> task_queue s' = task_queue s @ [Task_OnReadComplete r]
               \<and> synchronous_read_count s' = 0 \<and> read_pending s'
               \<and> history s' = history s @ t
               \<and> count_list t Socket_RecvFrom = nat (32 - synchronous_read_count s) + 1
               \<and> length (filter is_ProcessPacket t) = nat (32 - synchronous_read_count s)))"
proof (intro conjI impI)
  assume "RecvFrom_rc E (history s @ step1_events s) \<noteq> ERR_IO_PENDING K"
  with assms show "StartReading K E s =
              (if 32 < synchronous_read_count s + 1
               then Inr ((after_RecvFrom E s)
                      \<lparr>synchronous_read_count := 0,
                       task_queue := task_queue s @
                         [Task_OnReadComplete (RecvFrom_rc E (history s @ step1_events s))]\<rparr>)
               else OnReadComplete K E (RecvFrom_rc E (history s @ step1_events s))
                      ((after_RecvFrom E s)
                         \<lparr>synchronous_read_count := synchronous_read_count s + 1\<rparr>))"
    by (auto simp: StartReading_cases [of K E s])
next
  assume "\<forall>t. count_list t Socket_RecvFrom \<le> nat (32 - synchronous_read_count s) \<longrightarrow>
                0 < RecvFrom_rc E (history s @ t) \<and> RecvFrom_rc E (history s @ t) \<noteq> ERR_IO_PENDING K"
  with assms show "\<exists>s' r t. StartReading K E s = Inr s'
               \<and> task_queue s' = task_queue s @ [Task_OnReadComplete r]
               \<and> synchronous_read_count s' = 0 \<and> read_pending s'
               \<and> history s' = history s @ t
               \<and> count_list t Socket_RecvFrom = nat (32 - synchronous_read_count s) + 1
               \<and> length (filter is_ProcessPacket t) = nat (32 - synchronous_read_count s)"
    by (intro yield_after_run) simp_all
qed

theorem StartReading_yields_after_32_synchronous_reads_witness:
  "dispatcher (listening_endpoint (network 0 1200 False)) \<noteq> None
   \<and> socket (listening_endpoint (network 0 1200 False)) \<noteq> None
   \<and> \<not> read_pending (listening_endpoint (network 0 1200 False))
   \<and> synchronous_read_count (listening_endpoint (network 0 1200 False)) = 0
   \<and> StartReading chromium_constants (network 0 1200 False) (listening_endpoint (network 0 1200 False)) =
        OnReadComplete chromium_constants (network 0 1200 False) 1200
          ((after_RecvFrom (network 0 1200 False) (listening_endpoint (network 0 1200 False)))
             \<lparr>synchronous_read_count := 1\<rparr>)
   \<and> (\<exists>s' r t. StartReading chromium_constants (network 0 1200 False)
                   (listening_endpoint (network 0 1200 False)) = Inr s'
         \<and> task_queue s' = [Task_OnReadComplete r]
         \<and> synchronous_read_count s' = 0 \<and> read_pending s'
         \<and> history s' = history (listening_endpoint (network 0 1200 False)) @ t
         \<and> count_list t Socket_RecvFrom = 33
         \<and> length (filter is_ProcessPacket t) = 32)"
proof -
  let ?E = "network 0 1200 False"
  let ?L = "listening_endpoint ?E"
  have h1: "dispatcher ?L \<noteq> None" by (simp add: listening_endpoint_fields)
  have h2: "socket ?L \<noteq> None" by (simp add: listening_endpoint_fields)
  have h3: "\<not> read_pending ?L" by (simp add: listening_endpoint_fields)
  have c: "synchronous_read_count ?L = 0" by (simp add: listening_endpoint_fields)
  note yield = StartReading_yields_after_32_synchronous_reads [OF h1 h2 h3, of ?E chromium_constants]
  from yield [THEN conjunct1] have step: "StartReading chromium_constants ?E ?L =
        OnReadComplete chromium_constants ?E 1200
          ((after_RecvFrom ?E ?L)\<lparr>synchronous_read_count := 1\<rparr>)"
    by (simp add: c)
  from yield [THEN conjunct2] have run: "\<exists>s' r t. StartReading chromium_constants ?E ?L = Inr s'
         \<and> task_queue s' = [Task_OnReadComplete r]
         \<and> synchronous_read_count s' = 0 \<and> read_pending s'
         \<and> history s' = history ?L @ t
         \<and> count_list t Socket_RecvFrom = 33
         \<and> length (filter is_ProcessPacket t) = 32"
    by (simp add: c listening_endpoint_fields)
  from h1 h2 h3 c step run show ?thesis by (intro conjI)
qed

subsection \<open>Completion of a receive\<close>

lemma Stop_after_Stop:
  "Stop s = (if dispatcher s = None then Inl NullDereference else Inr (after_Stop s))"
  by (simp add: Stop_cases after_Stop_def)

lemma after_Stop_fields [simp]:
  "socket (after_Stop s) = None"
  "dispatcher (after_Stop s) = dispatcher s"
  "read_pending (after_Stop s) = read_pending s"
  "synchronous_read_count (after_Stop s) = synchronous_read_count s"
  "task_queue (after_Stop s) = task_queue s"
  "history (after_Stop s) = history s @ Dispatcher_Shutdown #
     (case socket s of None \<Rightarrow> [] | Some sock \<Rightarrow> [Socket_Close, Socket_delete])"
  by (simp_all add: after_Stop_def)

text \<open>
  Claim C5: on a started endpoint \<^verbatim>\<open>OnReadComplete\<close> treats the result 0 as it treats
  \<^verbatim>\<open>ERR_CONNECTION_CLOSED\<close>. For a negative result (or 0, the error being negative)
  it returns with the flag cleared, the error logged, the Dispatcher shut down and the
  socket closed and released: the endpoint is Stopped, one more socket release has
  happened, and the history shows no \<^verbatim>\<open>ProcessPacket\<close>. For a positive result it
  clears the flag, reads the clock, hands the packet (length, receipt time) with the
  server and client addresses to the Dispatcher and calls \<^verbatim>\<open>StartReading\<close>.
\<close>

theorem OnReadComplete_by_result:
  assumes "dispatcher s = Some d" "socket s = Some sock"
  shows "OnReadComplete K E 0 s = OnReadComplete K E (ERR_CONNECTION_CLOSED K) s
     \<and> (r < 0 \<or> r = 0 \<and> ERR_CONNECTION_CLOSED K < 0 \<longrightarrow>
          OnReadComplete K E r s = Inr (after_read_error K r s)
          \<and> read_pending (after_read_error K r s) = False
          \<and> socket (after_read_error K r s) = None
          \<and> lifecycle_of (after_read_error K r s) = Stopped
          \<and> socket_releases (after_read_error K r s) = socket_releases s + 1
          \<and> history (after_read_error K r s) = history s @
               [LOG_ERROR ''QuicRawServer read failed: '' (read_result K r),
                Dispatcher_Shutdown, Socket_Close, Socket_delete])
     \<and> (0 < r \<longrightarrow>
          OnReadComplete K E r s =
            StartReading K E
              (s\<lparr>read_pending := False,
                 history := history s @
                   [Clock_Now,
                    Dispatcher_ProcessPacket (server_address s) (client_address s)
                      (QuicReceivedPacket r (Now_ret E (history s)) False)]\<rparr>))"
proof (intro conjI impI)
  show "OnReadComplete K E 0 s = OnReadComplete K E (ERR_CONNECTION_CLOSED K) s"
    by (simp add: OnReadComplete_cases [of K E _ s] read_result_def)
next
  assume "r < 0 \<or> r = 0 \<and> ERR_CONNECTION_CLOSED K < 0"
  then have neg: "read_result K r < 0" by (auto simp: read_result_def)
  with assms show "OnReadComplete K E r s = Inr (after_read_error K r s)"
    by (simp add: OnReadComplete_cases [of K E r s] Stop_after_Stop after_read_error_def)
  show "read_pending (after_read_error K r s) = False"
    by (simp add: after_read_error_def)
  show "socket (after_read_error K r s) = None"
    by (simp add: after_read_error_def)
  show "lifecycle_of (after_read_error K r s) = Stopped"
    using assms by (simp add: after_read_error_def lifecycle_of_def)
  show "socket_releases (after_read_error K r s) = socket_releases s + 1"
    using assms by (simp add: after_read_error_def socket_releases_def)
  show "history (after_read_error K r s) = history s @
               [LOG_ERROR ''QuicRawServer read failed: '' (read_result K r),
                Dispatcher_Shutdown, Socket_Close, Socket_delete]"
    using assms by (simp add: after_read_error_def)
next
  assume "0 < r"
  then have "\<not> read_result K r < 0" "read_result K r = r" by (simp_all add: read_result_def)
  with assms show "OnReadComplete K E r s =
            StartReading K E
              (s\<lparr>read_pending := False,
                 history := history s @
                   [Clock_Now,
                    Dispatcher_ProcessPacket (server_address s) (client_address s)
                      (QuicReceivedPacket r (Now_ret E (history s)) False)]\<rparr>)"
    by (simp add: OnReadComplete_cases [of K E r s])
qed

theorem OnReadComplete_by_result_witness:
  "dispatcher (waiting_endpoint (network 0 (- 1) False))
     = Some \<lparr>writer = Some QuicSimpleServerPacketWriter\<rparr>
   \<and> socket (waiting_endpoint (network 0 (- 1) False)) = Some \<lparr>receives_in_flight = 1\<rparr>
   \<and> OnReadComplete chromium_constants (network 0 (- 1) False) 0 (waiting_endpoint (network 0 (- 1) False))
       = OnReadComplete chromium_constants (network 0 (- 1) False) (- 100)
           (waiting_endpoint (network 0 (- 1) False))
   \<and> OnReadComplete chromium_constants (network 0 (- 1) False) (- 1) (waiting_endpoint (network 0 (- 1) False))
       = Inr (after_read_error chromium_constants (- 1) (waiting_endpoint (network 0 (- 1) False)))
   \<and> lifecycle_of (waiting_endpoint (network 0 (- 1) False)) = Started
   \<and> lifecycle_of (after_read_error chromium_constants (- 1) (waiting_endpoint (network 0 (- 1) False)))
       = Stopped
   \<and> socket_releases (waiting_endpoint (network 0 (- 1) False)) = 0
   \<and> socket_releases (after_read_error chromium_constants (- 1) (waiting_endpoint (network 0 (- 1) False)))
       = 1
   \<and> OnReadComplete chromium_constants (network 0 (- 1) False) 1200 (waiting_endpoint (network 0 (- 1) False))
       = StartReading chromium_constants (network 0 (- 1) False)
           ((waiting_endpoint (network 0 (- 1) False))
              \<lparr>read_pending := False,
               history := history (waiting_endpoint (network 0 (- 1) False)) @
                 [Clock_Now,
                  Dispatcher_ProcessPacket (IPEndPoint IPv6AllZeros 4433)
                    (IPEndPoint (IPAddress [192, 0, 2, 7]) 50000)
                    (QuicReceivedPacket 1200 13 False)]\<rparr>)"
proof -
  let ?E = "network 0 (- 1) False"
  let ?W = "waiting_endpoint ?E"
  have d: "dispatcher ?W = Some \<lparr>writer = Some QuicSimpleServerPacketWriter\<rparr>"
    by (simp add: waiting_endpoint_def listening_endpoint_fields)
  have k: "socket ?W = Some \<lparr>receives_in_flight = 1\<rparr>"
    by (simp add: waiting_endpoint_def)
  have hL: "history (listening_endpoint ?E) =
      [CryptoConfig_AddDefaultConfig, Socket_new, Socket_AllowAddressReuse,
       Socket_Listen (IPEndPoint IPv6AllZeros 4433),
       Socket_SetReceiveBufferSize (1024 * 1024), Socket_SetSendBufferSize (320 * 1472),
       Socket_GetLocalAddress, Dispatcher_new, PacketWriter_new, Dispatcher_InitializeWithWriter]"
    by (simp add: listening_endpoint_def setup_history fresh_endpoint_fields failure_log_def Let_def)
  have aL: "server_address (listening_endpoint ?E) = IPEndPoint IPv6AllZeros 4433"
    by (simp add: listening_endpoint_def setup_server_address Let_def)
  have hW: "history ?W = history (listening_endpoint ?E) @
          [Dispatcher_ProcessBufferedChlos 16, Socket_RecvFrom, Dispatcher_HasChlosBuffered]"
    by (simp add: waiting_endpoint_def)
  have aW: "server_address ?W = IPEndPoint IPv6AllZeros 4433"
    "client_address ?W = IPEndPoint (IPAddress [192, 0, 2, 7]) 50000"
    by (simp_all add: waiting_endpoint_def after_RecvFrom_def aL)
  have rel: "socket_releases ?W = 0" by (simp add: socket_releases_def hW hL)
  have lc: "lifecycle_of ?W = Started" by (simp add: lifecycle_of_def k)
  note res = OnReadComplete_by_result [OF d k, of chromium_constants ?E]
  from res [of 0, THEN conjunct1] have z: "OnReadComplete chromium_constants ?E 0 ?W
       = OnReadComplete chromium_constants ?E (- 100) ?W" by simp
  from res [of "- 1", THEN conjunct2, THEN conjunct1] have e: "OnReadComplete chromium_constants ?E (- 1) ?W
       = Inr (after_read_error chromium_constants (- 1) ?W)"
    "lifecycle_of (after_read_error chromium_constants (- 1) ?W) = Stopped"
    "socket_releases (after_read_error chromium_constants (- 1) ?W) = 1"
    by (simp_all add: rel)
  have len: "length (history ?W) = 13" by (simp add: hW hL)
  from res [of 1200, THEN conjunct2, THEN conjunct2] have p: "OnReadComplete chromium_constants ?E 1200 ?W
       = StartReading chromium_constants ?E
           (?W\<lparr>read_pending := False,
               history := history ?W @
                 [Clock_Now,
                  Dispatcher_ProcessPacket (IPEndPoint IPv6AllZeros 4433)
                    (IPEndPoint (IPAddress [192, 0, 2, 7]) 50000)
                    (QuicReceivedPacket 1200 13 False)]\<rparr>)"
    by (simp add: aW len)
  from d k z e(1) lc e(2) rel e(3) p show ?thesis by (intro conjI)
qed

subsection \<open>Stop, start and the single receive\<close>

lemma Stop_without_socket:
  "dispatcher s \<noteq> None \<Longrightarrow> socket s = None \<Longrightarrow> Stop s = Inr (emit Dispatcher_Shutdown s)"
  by (auto simp: Stop_cases emit_def)

lemma emit_changes_state: "emit e s \<noteq> s"
proof
  assume "emit e s = s"
  then have "history (emit e s) = history s" by (rule arg_cong)
  then show False by simp
qed

text \<open>
  Claim C2, as amended: once the Dispatcher has been built, \<^verbatim>\<open>Stop()\<close> does not fail,
  and neither does a second \<^verbatim>\<open>Stop()\<close> right after it. The first call shuts the
  Dispatcher down and closes and releases the socket if one is held; the second finds
  no socket and its only effect is another \<^verbatim>\<open>Shutdown()\<close> of the Dispatcher. Over
  the two calls the socket is released once if one was held and not at all otherwise.
  A \<^verbatim>\<open>Stop()\<close> with no socket held only shuts the Dispatcher down once more.
\<close>

theorem Stop_releases_socket_at_most_once:
  assumes "dispatcher s = Some d"
  shows "Stop s = Inr (after_Stop s)
     \<and> Stop (after_Stop s) = Inr (emit Dispatcher_Shutdown (after_Stop s))
     \<and> socket (after_Stop s) = None
     \<and> socket_releases (emit Dispatcher_Shutdown (after_Stop s)) =
         socket_releases s + (case socket s of None \<Rightarrow> 0 | Some sock \<Rightarrow> 1)
     \<and> (socket s = None \<longrightarrow> Stop s = Inr (emit Dispatcher_Shutdown s))"
proof (intro conjI impI)
  show "Stop s = Inr (after_Stop s)" using assms by (simp add: Stop_after_Stop)
  show "Stop (after_Stop s) = Inr (emit Dispatcher_Shutdown (after_Stop s))"
    using assms by (simp add: Stop_cases emit_def)
  show "socket (after_Stop s) = None" by simp
  show "socket_releases (emit Dispatcher_Shutdown (after_Stop s)) =
         socket_releases s + (case socket s of None \<Rightarrow> 0 | Some sock \<Rightarrow> 1)"
    by (simp add: socket_releases_def split: option.split)
next
  assume "socket s = None"
  with assms show "Stop s = Inr (emit Dispatcher_Shutdown s)"
    by (simp add: Stop_cases emit_def)
qed

theorem Stop_releases_socket_at_most_once_witness:
  "dispatcher (waiting_endpoint (network 0 (- 1) False))
     = Some \<lparr>writer = Some QuicSimpleServerPacketWriter\<rparr>
   \<and> Stop (waiting_endpoint (network 0 (- 1) False))
       = Inr (after_Stop (waiting_endpoint (network 0 (- 1) False)))
   \<and> Stop (after_Stop (waiting_endpoint (network 0 (- 1) False)))
       = Inr (emit Dispatcher_Shutdown (after_Stop (waiting_endpoint (network 0 (- 1) False))))
   \<and> socket_releases (waiting_endpoint (network 0 (- 1) False)) = 0
   \<and> socket_releases (emit Dispatcher_Shutdown (after_Stop (waiting_endpoint (network 0 (- 1) False))))
       = 1"
proof -
  let ?E = "network 0 (- 1) False"
  let ?W = "waiting_endpoint ?E"
  have d: "dispatcher ?W = Some \<lparr>writer = Some QuicSimpleServerPacketWriter\<rparr>"
    by (simp add: waiting_endpoint_def listening_endpoint_fields)
  have k: "socket ?W = Some \<lparr>receives_in_flight = 1\<rparr>"
    by (simp add: waiting_endpoint_def)
  have hL: "history (listening_endpoint ?E) =
      [CryptoConfig_AddDefaultConfig, Socket_new, Socket_AllowAddressReuse,
       Socket_Listen (IPEndPoint IPv6AllZeros 4433),
       Socket_SetReceiveBufferSize (1024 * 1024), Socket_SetSendBufferSize (320 * 1472),
       Socket_GetLocalAddress, Dispatcher_new, PacketWriter_new, Dispatcher_InitializeWithWriter]"
    by (simp add: listening_endpoint_def setup_history fresh_endpoint_fields failure_log_def Let_def)
  have rel: "socket_releases ?W = 0"
    by (simp add: socket_releases_def waiting_endpoint_def hL)
  note res = Stop_releases_socket_at_most_once [OF d]
  from res have a: "Stop ?W = Inr (after_Stop ?W)" by (rule conjunct1)
  from res have b: "Stop (after_Stop ?W) = Inr (emit Dispatcher_Shutdown (after_Stop ?W))"
    by (simp only:)
  from res have c: "socket_releases (emit Dispatcher_Shutdown (after_Stop ?W)) = 1"
    by (simp add: k rel)
  from d a b rel c show ?thesis by (intro conjI)
qed

text \<open>
  The claim as stated fails twice. On an endpoint just constructed the Dispatcher
  pointer is null and line 161 calls through it; and on a stopped endpoint, which holds
  no socket, \<^verbatim>\<open>Stop()\<close> is not a no-op, because line 161 comes before the test of
  the socket.
\<close>

theorem Stop_counterexample:
  "Stop fresh_endpoint = Inl NullDereference
   \<and> socket (after_Stop (waiting_endpoint (network 0 (- 1) False))) = None
   \<and> Stop (after_Stop (waiting_endpoint (network 0 (- 1) False)))
       \<noteq> Inr (after_Stop (waiting_endpoint (network 0 (- 1) False)))"
proof -
  let ?S = "after_Stop (waiting_endpoint (network 0 (- 1) False))"
  have a: "Stop fresh_endpoint = Inl NullDereference"
    by (simp add: Stop_cases fresh_endpoint_fields)
  have b: "socket ?S = None" by simp
  have d: "dispatcher ?S \<noteq> None"
    by (simp add: waiting_endpoint_def listening_endpoint_fields)
  have c: "Stop ?S \<noteq> Inr ?S"
    by (simp only: Stop_without_socket [OF d b] sum.inject emit_changes_state not_False_eq_True)
  from a b c show ?thesis by (intro conjI)
qed


text \<open>
  Claim C8: \<^verbatim>\<open>StartOnCurrentThread\<close> is the receive loop entered from one state,
  whatever the four socket calls returned. In that state the new socket is installed,
  the Dispatcher is built and holds its packet writer, the server address is what
  \<^verbatim>\<open>GetLocalAddress\<close> left in it, and the history shows every step in order, each
  negative return code followed by its log entry and by the next step. The socket is
  asked to listen on the wildcard address and the port member narrowed to 16 bits.
\<close>

theorem StartOnCurrentThread_continues_after_failures:
  "StartOnCurrentThread K E s =
     (case StartReading K E (StartOnCurrentThread_setup K E s) of
        Inl e \<Rightarrow> Inl e
      | Inr s' \<Rightarrow> Inr (case socket s of None \<Rightarrow> s' | Some old \<Rightarrow> emit Socket_delete s'))
   \<and> socket (StartOnCurrentThread_setup K E s) = Some \<lparr>receives_in_flight = 0\<rparr>
   \<and> dispatcher (StartOnCurrentThread_setup K E s)
       = Some \<lparr>writer = Some QuicSimpleServerPacketWriter\<rparr>
   \<and> read_pending (StartOnCurrentThread_setup K E s) = read_pending s
   \<and> (let h1 = history s @ [Socket_new, Socket_AllowAddressReuse];
           h2 = h1 @ Socket_Listen (IPEndPoint IPv6AllZeros (word_of_int (port s)))
                  # failure_log ''Listen() failed: '' (Listen_rc E h1);
           h3 = h2 @ Socket_SetReceiveBufferSize (int32 (kDefaultSocketReceiveBuffer K))
                  # failure_log ''SetReceiveBufferSize() failed: '' (SetReceiveBufferSize_rc E h2);
           h4 = h3 @ Socket_SetSendBufferSize (int32 (320 * kMaxIncomingPacketSize K))
                  # failure_log ''SetSendBufferSize() failed: '' (SetSendBufferSize_rc E h3);
           h5 = h4 @ Socket_GetLocalAddress
                  # failure_log ''GetLocalAddress() failed: '' (GetLocalAddress_rc E h4)
       in server_address (StartOnCurrentThread_setup K E s)
            = GetLocalAddress_out E h4 (server_address s)
          \<and> history (StartOnCurrentThread_setup K E s)
            = h5 @ Dispatcher_new
                # (case dispatcher s of None \<Rightarrow> [] | Some d \<Rightarrow> [Dispatcher_delete])
                @ [PacketWriter_new, Dispatcher_InitializeWithWriter])"
  by (simp add: StartOnCurrentThread_def setup_fields setup_history setup_server_address Let_def)

lemma failing_listening_history:
  "history (listening_endpoint (network (- 2) (- 1) False)) =
     [CryptoConfig_AddDefaultConfig, Socket_new, Socket_AllowAddressReuse,
      Socket_Listen (IPEndPoint IPv6AllZeros 4433), LOG_ERROR ''Listen() failed: '' (- 2),
      Socket_SetReceiveBufferSize (1024 * 1024), LOG_ERROR ''SetReceiveBufferSize() failed: '' (- 2),
      Socket_SetSendBufferSize (320 * 1472), LOG_ERROR ''SetSendBufferSize() failed: '' (- 2),
      Socket_GetLocalAddress, LOG_ERROR ''GetLocalAddress() failed: '' (- 2),
      Dispatcher_new, PacketWriter_new, Dispatcher_InitializeWithWriter]"
  by (simp add: listening_endpoint_def setup_history fresh_endpoint_fields failure_log_def Let_def)

lemma constructed_fields:
  "history (QuicTransportOWTServerImpl K p cfg) = [CryptoConfig_AddDefaultConfig]"
  "port (QuicTransportOWTServerImpl K p cfg) = p"
  "dispatcher (QuicTransportOWTServerImpl K p cfg) = None"
  by (simp_all add: QuicTransportOWTServerImpl_def Initialize_def Let_def)

theorem StartOnCurrentThread_continues_after_failures_witness:
  "StartOnCurrentThread chromium_constants (network (- 2) (- 1) False) fresh_endpoint =
     Inr (waiting_endpoint (network (- 2) (- 1) False))
   \<and> socket (waiting_endpoint (network (- 2) (- 1) False)) = Some \<lparr>receives_in_flight = 1\<rparr>
   \<and> dispatcher (waiting_endpoint (network (- 2) (- 1) False))
       = Some \<lparr>writer = Some QuicSimpleServerPacketWriter\<rparr>
   \<and> read_pending (waiting_endpoint (network (- 2) (- 1) False)) = True
   \<and> history (waiting_endpoint (network (- 2) (- 1) False)) =
     [CryptoConfig_AddDefaultConfig, Socket_new, Socket_AllowAddressReuse,
      Socket_Listen (IPEndPoint IPv6AllZeros 4433), LOG_ERROR ''Listen() failed: '' (- 2),
      Socket_SetReceiveBufferSize (1024 * 1024), LOG_ERROR ''SetReceiveBufferSize() failed: '' (- 2),
      Socket_SetSendBufferSize (320 * 1472), LOG_ERROR ''SetSendBufferSize() failed: '' (- 2),
      Socket_GetLocalAddress, LOG_ERROR ''GetLocalAddress() failed: '' (- 2),
      Dispatcher_new, PacketWriter_new, Dispatcher_InitializeWithWriter,
      Dispatcher_ProcessBufferedChlos 16, Socket_RecvFrom, Dispatcher_HasChlosBuffered]
   \<and> take 4 (history (StartOnCurrentThread_setup chromium_constants (network (- 2) (- 1) False)
                       (QuicTransportOWTServerImpl chromium_constants 70000 small_config))) =
     [CryptoConfig_AddDefaultConfig, Socket_new, Socket_AllowAddressReuse,
      Socket_Listen (IPEndPoint IPv6AllZeros 4464)]
   \<and> take 4 (history (StartOnCurrentThread_setup chromium_constants (network (- 2) (- 1) False)
                       (QuicTransportOWTServerImpl chromium_constants (- 1) small_config))) =
     [CryptoConfig_AddDefaultConfig, Socket_new, Socket_AllowAddressReuse,
      Socket_Listen (IPEndPoint IPv6AllZeros 65535)]"
proof -
  let ?E = "network (- 2) (- 1) False"
  let ?L = "listening_endpoint ?E"
  note wide = StartOnCurrentThread_continues_after_failures
      [of chromium_constants ?E "QuicTransportOWTServerImpl chromium_constants 70000 small_config",
       THEN conjunct2, THEN conjunct2, THEN conjunct2, THEN conjunct2]
  then have w: "take 4 (history (StartOnCurrentThread_setup chromium_constants ?E
                       (QuicTransportOWTServerImpl chromium_constants 70000 small_config))) =
     [CryptoConfig_AddDefaultConfig, Socket_new, Socket_AllowAddressReuse,
      Socket_Listen (IPEndPoint IPv6AllZeros 4464)]"
    by (simp add: Let_def constructed_fields)
  note negative = StartOnCurrentThread_continues_after_failures
      [of chromium_constants ?E "QuicTransportOWTServerImpl chromium_constants (- 1) small_config",
       THEN conjunct2, THEN conjunct2, THEN conjunct2, THEN conjunct2]
  then have n: "take 4 (history (StartOnCurrentThread_setup chromium_constants ?E
                       (QuicTransportOWTServerImpl chromium_constants (- 1) small_config))) =
     [CryptoConfig_AddDefaultConfig, Socket_new, Socket_AllowAddressReuse,
      Socket_Listen (IPEndPoint IPv6AllZeros 65535)]"
    by (simp add: Let_def constructed_fields)
  have ev: "step1_events ?L = [Dispatcher_ProcessBufferedChlos 16]"
    by (simp add: step1_events_def listening_endpoint_fields kNumSessionsToCreatePerSocketEvent_def)
  have loop: "StartReading chromium_constants ?E ?L = Inr (waiting_endpoint ?E)"
    by (simp add: StartReading_cases [of _ _ ?L] listening_endpoint_fields ev waiting_endpoint_def)
  from StartOnCurrentThread_continues_after_failures [of chromium_constants ?E fresh_endpoint]
  have "StartOnCurrentThread chromium_constants ?E fresh_endpoint =
     (case StartReading chromium_constants ?E ?L of
        Inl e \<Rightarrow> Inl e
      | Inr s' \<Rightarrow> Inr (case socket fresh_endpoint of None \<Rightarrow> s' | Some old \<Rightarrow> emit Socket_delete s'))"
    unfolding listening_endpoint_def by (rule conjunct1)
  then have a: "StartOnCurrentThread chromium_constants ?E fresh_endpoint = Inr (waiting_endpoint ?E)"
    by (simp add: loop fresh_endpoint_fields)
  have b: "socket (waiting_endpoint ?E) = Some \<lparr>receives_in_flight = 1\<rparr>"
    "dispatcher (waiting_endpoint ?E) = Some \<lparr>writer = Some QuicSimpleServerPacketWriter\<rparr>"
    "read_pending (waiting_endpoint ?E) = True"
    by (simp_all add: waiting_endpoint_def listening_endpoint_fields)
  have c: "history (waiting_endpoint ?E) =
     [CryptoConfig_AddDefaultConfig, Socket_new, Socket_AllowAddressReuse,
      Socket_Listen (IPEndPoint IPv6AllZeros 4433), LOG_ERROR ''Listen() failed: '' (- 2),
      Socket_SetReceiveBufferSize (1024 * 1024), LOG_ERROR ''SetReceiveBufferSize() failed: '' (- 2),
      Socket_SetSendBufferSize (320 * 1472), LOG_ERROR ''SetSendBufferSize() failed: '' (- 2),
      Socket_GetLocalAddress, LOG_ERROR ''GetLocalAddress() failed: '' (- 2),
      Dispatcher_new, PacketWriter_new, Dispatcher_InitializeWithWriter,
      Dispatcher_ProcessBufferedChlos 16, Socket_RecvFrom, Dispatcher_HasChlosBuffered]"
    by (simp add: waiting_endpoint_def failing_listening_history)
  from a b c w n show ?thesis by (intro conjI)
qed


lemma in_flight_le_unhandled: "in_flight s \<le> unhandled_receives s"
  by (simp add: unhandled_receives_def)

text \<open>
  Claim C4, as amended: in every state an endpoint can reach, at most one receive is
  in flight on its socket, and none is while the flag is clear. With the flag set the
  counter is 0, so \<^verbatim>\<open>StartReading\<close> asks the Dispatcher to process buffered CHLOs
  (limit 16) and returns: it issues no receive, posts nothing and changes no member.
  In any state at all with the flag set, the events of step 1 are its only effect.
\<close>

theorem one_receive_at_a_time:
  assumes "reachable K E s"
  shows "in_flight s \<le> 1
     \<and> (if read_pending s
         then StartReading K E s =
                Inr (s\<lparr>history := history s @ [Dispatcher_ProcessBufferedChlos 16]\<rparr>)
         else in_flight s = 0)
     \<and> (read_pending s0 \<and> (synchronous_read_count s0 \<noteq> 0 \<or> dispatcher s0 \<noteq> None) \<longrightarrow>
          StartReading K E s0 = Inr (s0\<lparr>history := history s0 @ step1_events s0\<rparr>))"
proof -
  from assms have inv: "endpoint_invariant s" by (rule reachable_invariant)
  then have u: "unhandled_receives s = 0 \<or> unhandled_receives s = 1 \<and> read_pending s"
    and c: "read_pending s \<longrightarrow> synchronous_read_count s = 0"
    and d: "read_pending s \<longrightarrow> dispatcher s \<noteq> None"
    unfolding endpoint_invariant_def by auto
  from u in_flight_le_unhandled [of s] have a: "in_flight s \<le> 1" by auto
  have b: "if read_pending s
         then StartReading K E s =
                Inr (s\<lparr>history := history s @ [Dispatcher_ProcessBufferedChlos 16]\<rparr>)
         else in_flight s = 0"
  proof (cases "read_pending s")
    case True
    with c d show ?thesis
      by (simp add: StartReading_cases [of K E s] step1_events_def
          kNumSessionsToCreatePerSocketEvent_def)
  next
    case False
    with u in_flight_le_unhandled [of s] show ?thesis by auto
  qed
  have e: "read_pending s0 \<and> (synchronous_read_count s0 \<noteq> 0 \<or> dispatcher s0 \<noteq> None) \<longrightarrow>
          StartReading K E s0 = Inr (s0\<lparr>history := history s0 @ step1_events s0\<rparr>)"
    by (auto simp: StartReading_cases [of K E s0])
  from a b e show ?thesis by (intro conjI)
qed

lemma waiting_endpoint_returned:
  "StartOnCurrentThread chromium_constants (network 0 (- 1) False) fresh_endpoint =
     Inr (waiting_endpoint (network 0 (- 1) False))"
proof -
  let ?E = "network 0 (- 1) False"
  let ?L = "listening_endpoint ?E"
  have ev: "step1_events ?L = [Dispatcher_ProcessBufferedChlos 16]"
    by (simp add: step1_events_def listening_endpoint_fields kNumSessionsToCreatePerSocketEvent_def)
  have loop: "StartReading chromium_constants ?E ?L = Inr (waiting_endpoint ?E)"
    by (simp add: StartReading_cases [of _ _ ?L] listening_endpoint_fields ev waiting_endpoint_def)
  show ?thesis
    unfolding StartOnCurrentThread_def listening_endpoint_def [symmetric]
    by (simp add: loop fresh_endpoint_fields)
qed

lemma waiting_endpoint_reachable:
  "reachable chromium_constants (network 0 (- 1) False) (waiting_endpoint (network 0 (- 1) False))"
proof -
  let ?K = chromium_constants
  let ?E = "network 0 (- 1) False"
  have r0: "reachable ?K ?E fresh_endpoint"
    unfolding fresh_endpoint_def by (rule reachable.constructed)
  then have r1: "reachable ?K ?E (snd (Start fresh_endpoint))" by (rule reachable.Start_called)
  have q: "task_queue (snd (Start fresh_endpoint)) = Task_StartOnCurrentThread # []"
    by (simp add: Start_def PostTask_def fresh_endpoint_fields)
  have undo: "(snd (Start fresh_endpoint))\<lparr>task_queue := []\<rparr> = fresh_endpoint"
    by (simp add: Start_def PostTask_def fresh_endpoint_def QuicTransportOWTServerImpl_def
        Initialize_def Let_def emit_def)
  have run: "run_task ?K ?E Task_StartOnCurrentThread ((snd (Start fresh_endpoint))\<lparr>task_queue := []\<rparr>)
      = Inr (waiting_endpoint ?E)"
    by (simp add: run_task_def undo waiting_endpoint_returned)
  from r1 q run show ?thesis by (rule reachable.task_run)
qed

theorem one_receive_at_a_time_witness:
  "reachable chromium_constants (network 0 (- 1) False) (waiting_endpoint (network 0 (- 1) False))
   \<and> read_pending (waiting_endpoint (network 0 (- 1) False))
   \<and> in_flight (waiting_endpoint (network 0 (- 1) False)) = 1
   \<and> StartReading chromium_constants (network 0 (- 1) False) (waiting_endpoint (network 0 (- 1) False)) =
       Inr ((waiting_endpoint (network 0 (- 1) False))
              \<lparr>history := history (waiting_endpoint (network 0 (- 1) False))
                           @ [Dispatcher_ProcessBufferedChlos 16]\<rparr>)"
proof -
  let ?E = "network 0 (- 1) False"
  let ?W = "waiting_endpoint ?E"
  have p: "read_pending ?W" by (simp add: waiting_endpoint_def)
  have f: "in_flight ?W = 1" by (simp add: in_flight_def waiting_endpoint_def)
  from one_receive_at_a_time [OF waiting_endpoint_reachable, THEN conjunct2, THEN conjunct1]
  have "StartReading chromium_constants ?E ?W =
       Inr (?W\<lparr>history := history ?W @ [Dispatcher_ProcessBufferedChlos 16]\<rparr>)"
    by (simp add: p)
  with waiting_endpoint_reachable p f show ?thesis by (intro conjI)
qed

text \<open>
  The claim as stated calls the second \<^verbatim>\<open>StartReading\<close> a no-op. With a receive
  pending on the listening endpoint it is not: the call to the Dispatcher of lines 183
  to 186 comes before the test of the flag.
\<close>

theorem StartReading_while_pending_counterexample:
  "read_pending (waiting_endpoint (network 0 (- 1) False))
   \<and> StartReading chromium_constants (network 0 (- 1) False) (waiting_endpoint (network 0 (- 1) False)) =
       Inr (emit (Dispatcher_ProcessBufferedChlos 16) (waiting_endpoint (network 0 (- 1) False)))
   \<and> StartReading chromium_constants (network 0 (- 1) False) (waiting_endpoint (network 0 (- 1) False))
       \<noteq> Inr (waiting_endpoint (network 0 (- 1) False))"
proof -
  let ?E = "network 0 (- 1) False"
  let ?W = "waiting_endpoint ?E"
  have p: "read_pending ?W" by (simp add: waiting_endpoint_def)
  have run: "StartReading chromium_constants ?E ?W = Inr (emit (Dispatcher_ProcessBufferedChlos 16) ?W)"
  proof -
    have c: "synchronous_read_count ?W = 0" by (simp add: waiting_endpoint_def)
    have d: "dispatcher ?W \<noteq> None" by (simp add: waiting_endpoint_def listening_endpoint_fields)
    from p c d show ?thesis
      by (simp add: StartReading_cases [of _ _ ?W] step1_events_def
          kNumSessionsToCreatePerSocketEvent_def emit_def)
  qed
  have ne: "StartReading chromium_constants ?E ?W \<noteq> Inr ?W"
    by (simp only: run sum.inject emit_changes_state not_False_eq_True)
  from p run ne show ?thesis by (intro conjI)
qed


end
